theory Spec2Isabelle
  imports Main
begin

section \<open>JavaScript values used by the guard and the interceptor\<close>

text \<open>
  The rate limiter is TypeScript. Its arithmetic is on JavaScript numbers. The configured
  limit and duration and the integers a store returns from \<open>incr\<close> and \<open>ttl\<close> are
  modelled as \<open>int\<close>; the one place where a number can fail to be an integer is the
  result of \<open>parseInt\<close> on the string read by \<open>get\<close>, which is \<open>NaN\<close> when the
  string has no leading digits. Numbers beyond the safe integer range (where JavaScript
  rounds) are outside the model.
\<close>

datatype number = Num int | NaN

text \<open>\<open>a - b\<close>, \<open>a >= b\<close>, \<open>a > b\<close> and \<open>a < b\<close>: every comparison with \<open>NaN\<close> is false.\<close>

fun minus_number :: "number \<Rightarrow> number \<Rightarrow> number" where
  "minus_number (Num a) (Num b) = Num (a - b)"
| "minus_number _ _ = NaN"

fun ge_number :: "number \<Rightarrow> number \<Rightarrow> bool" where
  "ge_number (Num a) (Num b) = (a \<ge> b)"
| "ge_number _ _ = False"

fun gt_number :: "number \<Rightarrow> number \<Rightarrow> bool" where
  "gt_number (Num a) (Num b) = (a > b)"
| "gt_number _ _ = False"

fun lt_number :: "number \<Rightarrow> number \<Rightarrow> bool" where
  "lt_number (Num a) (Num b) = (a < b)"
| "lt_number _ _ = False"

text \<open>
  Truthiness and the operators \<open>||\<close> and \<open>??\<close>. An optional property
  (\<open>errorMessage?: string\<close>) is an \<open>option\<close>, \<open>None\<close> for \<open>undefined\<close> (and
  \<open>null\<close>). \<open>a || b\<close> is \<open>a\<close> when \<open>a\<close> is truthy and \<open>b\<close> otherwise;
  \<open>a ?? b\<close> is \<open>a\<close> unless \<open>a\<close> is \<open>undefined\<close> or \<open>null\<close>. The variants
  ending in \<open>_default\<close> are the same operators with a right operand that is never
  undefined. \<open>x?.f\<close> on an optional object \<open>x\<close> is \<open>map_option f x\<close>, and
  \<open>Option.bind x f\<close> when \<open>f\<close> is itself optional.
\<close>

definition truthy_boolean :: "bool option \<Rightarrow> bool" where
  "truthy_boolean b = (b = Some True)"

definition truthy_string :: "string option \<Rightarrow> bool" where
  "truthy_string s = (case s of None \<Rightarrow> False | Some t \<Rightarrow> t \<noteq> [])"

definition or_number_default :: "int option \<Rightarrow> int \<Rightarrow> int" where
  "or_number_default a b = (case a of None \<Rightarrow> b | Some n \<Rightarrow> if n = 0 then b else n)"

definition or_boolean :: "bool option \<Rightarrow> bool option \<Rightarrow> bool option" where
  "or_boolean a b = (if truthy_boolean a then a else b)"

definition or_boolean_default :: "bool option \<Rightarrow> bool \<Rightarrow> bool" where
  "or_boolean_default a b = (if truthy_boolean a then True else b)"

definition or_string_default :: "string option \<Rightarrow> string \<Rightarrow> string" where
  "or_string_default a b = (case a of None \<Rightarrow> b | Some s \<Rightarrow> if s = [] then b else s)"

definition nullish :: "'a option \<Rightarrow> 'a option \<Rightarrow> 'a option" where
  "nullish a b = (case a of None \<Rightarrow> b | Some v \<Rightarrow> Some v)"

definition nullish_default :: "'a option \<Rightarrow> 'a \<Rightarrow> 'a" where
  "nullish_default a b = (case a of None \<Rightarrow> b | Some v \<Rightarrow> v)"

subsection \<open>\<open>String(n)\<close> and \<open>parseInt(s, 10)\<close>\<close>

definition digit_char :: "nat \<Rightarrow> char" where
  "digit_char d = ''0123456789'' ! d"

function digits :: "nat \<Rightarrow> string" where
  "digits n = (if n < 10 then [digit_char n] else digits (n div 10) @ [digit_char (n mod 10)])"
  by pat_completeness auto
termination
  by (relation "measure (\<lambda>n. n)") auto

declare digits.simps [simp del]

text \<open>\<open>String(n)\<close>: the decimal numeral of an integer, \<open>NaN\<close> for \<open>NaN\<close>.\<close>

fun String_number :: "number \<Rightarrow> string" where
  "String_number (Num i) = (if i < 0 then CHR ''-'' # digits (nat (- i)) else digits (nat i))"
| "String_number NaN = ''NaN''"

definition isWhiteSpace :: "char \<Rightarrow> bool" where
  "isWhiteSpace c = (c \<in> set [CHR 0x09, CHR 0x0A, CHR 0x0B, CHR 0x0C, CHR 0x0D, CHR '' ''])"

definition isDigit :: "char \<Rightarrow> bool" where
  "isDigit c = (c \<in> set ''0123456789'')"

definition digit_val :: "char \<Rightarrow> nat" where
  "digit_val c = of_char c - 48"

text \<open>
  \<open>parseInt(s, 10)\<close>: leading white space is skipped (the ASCII white space; the
  other Unicode spaces are not modelled), one sign is read, then the longest run of
  decimal digits; with no digit the result is \<open>NaN\<close>.
\<close>

definition parseInt :: "string \<Rightarrow> number" where
  "parseInt s =
     (let t = dropWhile isWhiteSpace s;
          (sign, u) = (case t of
                         [] \<Rightarrow> (1, t)
                       | c # r \<Rightarrow> if c = CHR ''-'' then (- 1, r)
                                  else if c = CHR ''+'' then (1, r) else (1, t));
          ds = takeWhile isDigit u
      in if ds = [] then NaN
         else Num (sign * int (foldl (\<lambda>a c. 10 * a + digit_val c) 0 ds)))"

section \<open>Options, the counter store and the request\<close>

text \<open>
  \<open>RateLimitDecoratorOptions\<close> is the per-route fragment attached by \<open>@RateLimit\<close>;
  \<open>RateLimitOptions\<close> is the module-wide configuration. In the source the second
  interface repeats the four fields of the first and adds \<open>storeClient\<close>, so it is the
  record extension here.
\<close>

record RateLimitDecoratorOptions =
  duration :: int
  limit :: int
  errorMessage :: "string option"
  countAllRequests :: "bool option"

text \<open>
  \<open>RateLimitStore\<close> is the interface of the external key-value store. Every call is
  awaited, so each operation is a function on the store's state \<open>'s\<close> returning its
  answer and the state after it. Rejected promises (a store that is down) are outside the
  model: every call returns.
\<close>

record 's RateLimitStore =
  get :: "string \<Rightarrow> 's \<Rightarrow> string option \<times> 's"
  incr :: "string \<Rightarrow> 's \<Rightarrow> int \<times> 's"
  expire :: "string \<Rightarrow> int \<Rightarrow> 's \<Rightarrow> 's"
  ttl :: "string \<Rightarrow> 's \<Rightarrow> int \<times> 's"

record 's RateLimitOptions = RateLimitDecoratorOptions +
  storeClient :: "'s RateLimitStore"

text \<open>
  The calls made on the store are recorded, in order, beside the store's state: a
  property such as "no store access" or "no expire call" is a property of this trace.
\<close>

datatype store_call = Ttl string | Get string | Incr string | Expire string int

type_synonym 's world = "'s \<times> store_call list"

definition call_ttl :: "'s RateLimitStore \<Rightarrow> string \<Rightarrow> 's world \<Rightarrow> int \<times> 's world" where
  "call_ttl st k w = (case ttl st k (fst w) of (r, s') \<Rightarrow> (r, (s', snd w @ [Ttl k])))"

definition call_get :: "'s RateLimitStore \<Rightarrow> string \<Rightarrow> 's world \<Rightarrow> string option \<times> 's world" where
  "call_get st k w = (case get st k (fst w) of (r, s') \<Rightarrow> (r, (s', snd w @ [Get k])))"

definition call_incr :: "'s RateLimitStore \<Rightarrow> string \<Rightarrow> 's world \<Rightarrow> int \<times> 's world" where
  "call_incr st k w = (case incr st k (fst w) of (r, s') \<Rightarrow> (r, (s', snd w @ [Incr k])))"

definition call_expire :: "'s RateLimitStore \<Rightarrow> string \<Rightarrow> int \<Rightarrow> 's world \<Rightarrow> 's world" where
  "call_expire st k secs w = (expire st k secs (fst w), snd w @ [Expire k secs])"

text \<open>
  The framework's side. A route is a handler of a controller class; each carries a name
  and the metadata set by the decorators \<open>@SkipRateLimit\<close> (key \<open>SKIP_RATE_LIMIT\<close>)
  and \<open>@RateLimit\<close> (key \<open>RATE_LIMIT_OPTIONS\<close>). \<open>Reflector.get\<close> reads the
  metadata of one target; \<open>Reflector.getAllAndOverride\<close> returns the first defined
  metadata among the targets, in the order given.
\<close>

record target =
  name :: string
  SKIP_RATE_LIMIT :: "bool option"
  RATE_LIMIT_OPTIONS :: "RateLimitDecoratorOptions option"

fun getAllAndOverride :: "(target \<Rightarrow> 'a option) \<Rightarrow> target list \<Rightarrow> 'a option" where
  "getAllAndOverride metadataKey [] = None"
| "getAllAndOverride metadataKey (t # ts) =
     (case metadataKey t of Some v \<Rightarrow> Some v | None \<Rightarrow> getAllAndOverride metadataKey ts)"

record RateLimitRequest =
  ip :: "string option"
  headers :: "(string \<rightharpoonup> string) option"
  rateLimitTracker :: "string option"

text \<open>
  A response offers \<open>setHeader\<close> (Express, Node) or \<open>header\<close> (Fastify), which the
  guard tests with \<open>typeof\<close>; \<open>setHeader\<close> receives the number, \<open>header\<close> its
  \<open>String\<close>.
\<close>

datatype header_value = NumberValue number | StringValue string

record Response =
  has_setHeader :: bool
  has_header :: bool
  sent_headers :: "string \<rightharpoonup> header_value"
  statusCode :: int

record ExecutionContext =
  getClass :: target
  getHandler :: target
  getRequest :: RateLimitRequest
  getResponse :: Response

record HttpException =
  message :: string
  status :: int

text \<open>\<open>new RateLimitException(message)\<close>; \<open>HttpStatus.TOO_MANY_REQUESTS\<close> is 429.\<close>

definition RateLimitException :: "string option \<Rightarrow> HttpException" where
  "RateLimitException msg =
     \<lparr>message = nullish_default msg ''Too Many Requests'', status = 429\<rparr>"

section \<open>The guard (Decision Stage)\<close>

text \<open>
  \<open>sha256\<close> is Node's \<open>createHash('sha256').update(value).digest('hex')\<close>, a
  library primitive: the functions that use it take it as their first argument.
\<close>

definition getTracker :: "RateLimitRequest \<Rightarrow> string" where
  "getTracker request =
     or_string_default
       (nullish (ip request) (Option.bind (headers request) (\<lambda>h. h ''x-forwarded-for'')))
       ''unknown''"

definition generateRateLimitKey :: "(string \<Rightarrow> string) \<Rightarrow> ExecutionContext \<Rightarrow> string \<Rightarrow> string" where
  "generateRateLimitKey sha256 ctx data =
     (let className = name (getClass ctx);
          handlerName = name (getHandler ctx)
      in sha256 (className @ ''-'' @ handlerName @ ''-'' @ data))"

definition getErrorMessage :: "'s RateLimitOptions \<Rightarrow> ExecutionContext \<Rightarrow> string" where
  "getErrorMessage options ctx =
     (let customOptions = RATE_LIMIT_OPTIONS (getHandler ctx)
      in nullish_default
           (nullish (Option.bind customOptions errorMessage) (errorMessage options))
           ''Too Many Requests'')"

definition setHeadersAllow :: "Response \<Rightarrow> number \<Rightarrow> int \<Rightarrow> int \<Rightarrow> Response" where
  "setHeadersAllow response remaining effectiveLimit ttlv =
     (let shown = (if lt_number remaining (Num 0) then Num 0 else remaining) in
      if has_setHeader response then
        response\<lparr>sent_headers := (sent_headers response)
          (''X-RateLimit-Limit'' \<mapsto> NumberValue (Num effectiveLimit),
           ''X-RateLimit-Remaining'' \<mapsto> NumberValue shown,
           ''X-RateLimit-Reset'' \<mapsto> NumberValue (Num ttlv))\<rparr>
      else if has_header response then
        response\<lparr>sent_headers := (sent_headers response)
          (''X-RateLimit-Limit'' \<mapsto> StringValue (String_number (Num effectiveLimit)),
           ''X-RateLimit-Remaining'' \<mapsto> StringValue (String_number shown),
           ''X-RateLimit-Reset'' \<mapsto> StringValue (String_number (Num ttlv)))\<rparr>
      else response)"

definition setHeadersLimit :: "Response \<Rightarrow> int \<Rightarrow> Response" where
  "setHeadersLimit response ttlv =
     (if has_setHeader response then
        response\<lparr>sent_headers := (sent_headers response)
          (''Retry-After'' \<mapsto> NumberValue (Num ttlv))\<rparr>
      else if has_header response then
        response\<lparr>sent_headers := (sent_headers response)
          (''Retry-After'' \<mapsto> StringValue (String_number (Num ttlv)))\<rparr>
      else response)"

text \<open>
  \<open>canActivate\<close> returns \<open>Inr True\<close> when the request may proceed and \<open>Inl e\<close>
  when it throws \<open>e\<close>, together with the request and response objects as it leaves
  them and the store with its trace. The two branches on \<open>countAllRequests\<close> each end
  in the same test-and-throw; here they yield the count and whether the limit is
  exceeded, and the throw follows once.
\<close>

definition canActivate ::
  "(string \<Rightarrow> string) \<Rightarrow> 's RateLimitOptions \<Rightarrow> ExecutionContext \<Rightarrow> 's world
     \<Rightarrow> (HttpException + bool) \<times> ExecutionContext \<times> 's world" where
  "canActivate sha256 options ctx w =
     (let skip = getAllAndOverride SKIP_RATE_LIMIT [getHandler ctx, getClass ctx] in
      if truthy_boolean skip then (Inr True, ctx, w)
      else
        let customOptions = getAllAndOverride RATE_LIMIT_OPTIONS [getHandler ctx, getClass ctx];
            effectiveLimit = or_number_default (map_option limit customOptions) (limit options);
            effectiveDuration =
              or_number_default (map_option duration customOptions) (duration options);
            countAll =
              or_boolean_default
                (or_boolean (Option.bind customOptions countAllRequests) (countAllRequests options))
                False;
            request = getRequest ctx;
            response = getResponse ctx;
            tracker = getTracker request;
            key = generateRateLimitKey sha256 ctx tracker;
            request = request\<lparr>rateLimitTracker := Some key\<rparr>;
            (ttl0, w) = call_ttl (storeClient options) key w;
            ttlv = (if ttl0 < 0 then effectiveDuration else ttl0);
            (count, exceeded, w) =
              (if countAll then
                 let (newCount, w) = call_incr (storeClient options) key w;
                     w = (if newCount = 1
                          then call_expire (storeClient options) key effectiveDuration w
                          else w);
                     count = Num newCount
                 in (count, gt_number count (Num effectiveLimit), w)
               else
                 let (currentVal, w) = call_get (storeClient options) key w;
                     count = (case currentVal of
                                None \<Rightarrow> Num 0
                              | Some v \<Rightarrow> if v = [] then Num 0 else parseInt v)
                 in (count, ge_number count (Num effectiveLimit), w))
        in if exceeded then
             (Inl (RateLimitException (Some (getErrorMessage options ctx))),
              ctx\<lparr>getRequest := request, getResponse := setHeadersLimit response ttlv\<rparr>, w)
           else
             let remaining = minus_number (Num effectiveLimit) count
             in (Inr True,
                 ctx\<lparr>getRequest := request,
                     getResponse := setHeadersAllow response remaining effectiveLimit ttlv\<rparr>,
                 w))"

section \<open>The interceptor (Settlement Stage)\<close>

text \<open>
  \<open>next.handle()\<close> runs the protected handler. For an HTTP route it either emits the
  handler's value, leaving \<open>response.statusCode\<close> at some status, or fails with the
  handler's exception. The callback given to \<open>tap\<close> is its \<open>next\<close> callback: it runs
  on the emitted value and not on an error. The callback's store calls are not awaited by
  the response path; the model runs them to completion before the next request.
\<close>

datatype CallHandler = Emits int | Throws

definition handle :: "CallHandler \<Rightarrow> ExecutionContext \<Rightarrow> ExecutionContext option" where
  "handle next ctx =
     (case next of
        Throws \<Rightarrow> None
      | Emits sc \<Rightarrow> Some (ctx\<lparr>getResponse := (getResponse ctx)\<lparr>statusCode := sc\<rparr>\<rparr>))"

definition intercept ::
  "'s RateLimitOptions \<Rightarrow> ExecutionContext \<Rightarrow> CallHandler \<Rightarrow> 's world \<Rightarrow> 's world" where
  "intercept options ctx next w =
     (let customOptions = getAllAndOverride RATE_LIMIT_OPTIONS [getHandler ctx, getClass ctx];
          countAll =
            nullish_default
              (nullish (Option.bind customOptions countAllRequests) (countAllRequests options))
              False
      in case handle next ctx of
           None \<Rightarrow> w
         | Some ctx' \<Rightarrow>
             (let key = rateLimitTracker (getRequest ctx') in
              if \<not> countAll \<and> truthy_string key then
                (case key of
                   None \<Rightarrow> w
                 | Some k \<Rightarrow>
                     let response = getResponse ctx' in
                     if statusCode response < 400 then
                       let (count, w) = call_incr (storeClient options) k w
                       in if count = 1
                          then call_expire (storeClient options) k
                                 (or_number_default (map_option duration customOptions)
                                    (duration options)) w
                          else w
                     else w)
              else w))"

text \<open>
  One request on a route that carries the guard: the guard, then (unless it throws) the
  handler, then the interceptor's callback. The result is \<open>Inl e\<close> when the guard
  throws and \<open>Inr next\<close> when the handler ran with outcome \<open>next\<close>.
\<close>

definition serve ::
  "(string \<Rightarrow> string) \<Rightarrow> 's RateLimitOptions \<Rightarrow> ExecutionContext \<Rightarrow> CallHandler \<Rightarrow> 's world
     \<Rightarrow> (HttpException + CallHandler) \<times> 's world" where
  "serve sha256 options ctx next w =
     (case canActivate sha256 options ctx w of
        (Inl e, ctx', w') \<Rightarrow> (Inl e, w')
      | (Inr allowed, ctx', w') \<Rightarrow>
          if allowed then (Inr next, intercept options ctx' next w')
          else (Inl \<lparr>message = ''Forbidden resource'', status = 403\<rparr>, w'))"

section \<open>A reference counter store\<close>

text \<open>
  Modelled from the spec: the backing store (Redis or Valkey behind the adapters, which
  only forward each call) is an external collaborator and not part of the sources. This
  reference store follows the Counter Store contract of the specification and the
  comments of the \<open>RateLimitStore\<close> interface: \<open>get\<close> returns the stored value
  or nothing; \<open>incr\<close> increments atomically, creating the counter at 0 first, and
  returns the new value; \<open>expire\<close> sets the remaining lifetime of an existing key;
  \<open>ttl\<close> returns the remaining seconds, or a negative sentinel when the key has no
  expiry (-1) or is absent (-2). A counter whose lifetime has elapsed is absent. Time is
  a clock in whole seconds that \<open>advance\<close> moves forward between requests.
\<close>

record entry =
  val :: int
  expireAt :: "int option"

record mem =
  clock :: int
  cells :: "string \<rightharpoonup> entry"

text \<open>
  Modelled from the spec: the counter "expires automatically when its TTL elapses";
  \<open>live\<close> is the entry under a key unless its lifetime has elapsed.
\<close>

definition live :: "mem \<Rightarrow> string \<Rightarrow> entry option" where
  "live s k =
     (case cells s k of
        None \<Rightarrow> None
      | Some e \<Rightarrow> (case expireAt e of
                     None \<Rightarrow> Some e
                   | Some t \<Rightarrow> if t \<le> clock s then None else Some e))"

text \<open>
  Modelled from the spec: \<open>get(key)\<close> "returns current stored value or absent if
  unset"; the value of a counter is its decimal numeral.
\<close>

definition mem_get :: "string \<Rightarrow> mem \<Rightarrow> string option \<times> mem" where
  "mem_get k s = (map_option (\<lambda>e. String_number (Num (val e))) (live s k), s)"

text \<open>
  Modelled from the spec: \<open>incr(key)\<close> "atomically increments (creating at 0 first)
  and returns new value"; a counter it creates has no expiry, one it increments keeps its
  expiry.
\<close>

definition mem_incr :: "string \<Rightarrow> mem \<Rightarrow> int \<times> mem" where
  "mem_incr k s =
     (let e = (case live s k of
                 None \<Rightarrow> \<lparr>val = 1, expireAt = None\<rparr>
               | Some e \<Rightarrow> e\<lparr>val := val e + 1\<rparr>)
      in (val e, s\<lparr>cells := (cells s)(k \<mapsto> e)\<rparr>))"

text \<open>
  Modelled from the spec: \<open>expire(key, seconds)\<close> "sets remaining lifetime", and
  does nothing when the key is absent.
\<close>

definition mem_expire :: "string \<Rightarrow> int \<Rightarrow> mem \<Rightarrow> mem" where
  "mem_expire k secs s =
     (case live s k of
        None \<Rightarrow> s
      | Some e \<Rightarrow> s\<lparr>cells := (cells s)(k \<mapsto> e\<lparr>expireAt := Some (clock s + secs)\<rparr>)\<rparr>)"

text \<open>
  Modelled from the spec: \<open>ttl(key)\<close> returns the "remaining seconds, or a negative
  sentinel if no expiry is set / key absent".
\<close>

definition mem_ttl :: "string \<Rightarrow> mem \<Rightarrow> int \<times> mem" where
  "mem_ttl k s =
     (case live s k of
        None \<Rightarrow> (- 2, s)
      | Some e \<Rightarrow> (case expireAt e of None \<Rightarrow> (- 1, s) | Some t \<Rightarrow> (t - clock s, s)))"

text \<open>Modelled from the spec: the four operations as a \<open>RateLimitStore\<close>.\<close>

definition memStore :: "mem RateLimitStore" where
  "memStore = \<lparr>get = mem_get, incr = mem_incr, expire = mem_expire, ttl = mem_ttl\<rparr>"

text \<open>Modelled from the spec: time passing between two requests, in whole seconds.\<close>

definition advance :: "nat \<Rightarrow> mem world \<Rightarrow> mem world" where
  "advance d w = ((fst w)\<lparr>clock := clock (fst w) + int d\<rparr>, snd w)"

text \<open>
  \<open>within_window s k horizon\<close>: the counter under \<open>k\<close> is absent or expired,
  or it carries an expiry that lies beyond \<open>horizon\<close>. While the clock stays at or
  below the horizon, a counter that is present stays present.
\<close>

definition within_window :: "mem \<Rightarrow> string \<Rightarrow> int \<Rightarrow> bool" where
  "within_window s k horizon =
     (case cells s k of
        None \<Rightarrow> True
      | Some en \<Rightarrow> (case expireAt en of
                      None \<Rightarrow> False
                    | Some e \<Rightarrow> e \<le> clock s \<or> horizon < e))"

text \<open>The counter under a key as a number: 0 when the key is absent.\<close>

definition counter :: "mem \<Rightarrow> string \<Rightarrow> int" where
  "counter s k = (case live s k of None \<Rightarrow> 0 | Some e \<Rightarrow> val e)"

section \<open>The quantities the specification names\<close>

text \<open>
  The specification speaks of the route's bypass mark, its per-route Policy fragment, the
  effective limit and window, the counting mode and the Limiting Key. In the source these
  are expressions inside \<open>canActivate\<close> and \<open>intercept\<close>; the definitions below
  state each one by cases, and the lemmas of the next section show that the operators of
  the code compute exactly them. The guard and the interceptor resolve the counting mode
  with different operators (\<open>||\<close> and \<open>??\<close>), so there is one definition for each.
\<close>

definition routeOptions :: "ExecutionContext \<Rightarrow> RateLimitDecoratorOptions option" where
  "routeOptions ctx =
     (case RATE_LIMIT_OPTIONS (getHandler ctx) of
        Some c \<Rightarrow> Some c
      | None \<Rightarrow> RATE_LIMIT_OPTIONS (getClass ctx))"

definition bypass :: "ExecutionContext \<Rightarrow> bool" where
  "bypass ctx =
     (case SKIP_RATE_LIMIT (getHandler ctx) of
        Some b \<Rightarrow> b
      | None \<Rightarrow> (case SKIP_RATE_LIMIT (getClass ctx) of Some b \<Rightarrow> b | None \<Rightarrow> False))"

definition effectiveLimit :: "'s RateLimitOptions \<Rightarrow> ExecutionContext \<Rightarrow> int" where
  "effectiveLimit options ctx =
     (case routeOptions ctx of
        None \<Rightarrow> limit options
      | Some c \<Rightarrow> if limit c = 0 then limit options else limit c)"

definition windowSeconds :: "'s RateLimitOptions \<Rightarrow> ExecutionContext \<Rightarrow> int" where
  "windowSeconds options ctx =
     (case routeOptions ctx of
        None \<Rightarrow> duration options
      | Some c \<Rightarrow> if duration c = 0 then duration options else duration c)"

definition perRouteCountAll :: "ExecutionContext \<Rightarrow> bool option" where
  "perRouteCountAll ctx = (case routeOptions ctx of None \<Rightarrow> None | Some c \<Rightarrow> countAllRequests c)"

definition decisionCountAll :: "'s RateLimitOptions \<Rightarrow> ExecutionContext \<Rightarrow> bool" where
  "decisionCountAll options ctx =
     (if perRouteCountAll ctx = Some True then True
      else (case countAllRequests options of Some b \<Rightarrow> b | None \<Rightarrow> False))"

definition settlementCountAll :: "'s RateLimitOptions \<Rightarrow> ExecutionContext \<Rightarrow> bool" where
  "settlementCountAll options ctx =
     (case perRouteCountAll ctx of
        Some b \<Rightarrow> b
      | None \<Rightarrow> (case countAllRequests options of Some b \<Rightarrow> b | None \<Rightarrow> False))"

definition limitingKey :: "(string \<Rightarrow> string) \<Rightarrow> ExecutionContext \<Rightarrow> string" where
  "limitingKey sha256 ctx = generateRateLimitKey sha256 ctx (getTracker (getRequest ctx))"

definition readCount :: "string option \<Rightarrow> number" where
  "readCount v = (case v of None \<Rightarrow> Num 0 | Some t \<Rightarrow> if t = [] then Num 0 else parseInt t)"

definition resetTime :: "int \<Rightarrow> int \<Rightarrow> int" where
  "resetTime windowSecs t = (if t < 0 then windowSecs else t)"

definition bind_key :: "string \<Rightarrow> ExecutionContext \<Rightarrow> Response \<Rightarrow> ExecutionContext" where
  "bind_key k ctx r =
     ctx\<lparr>getRequest := (getRequest ctx)\<lparr>rateLimitTracker := Some k\<rparr>, getResponse := r\<rparr>"

text \<open>A response attribute as the response's own setter stores it.\<close>

definition attribute :: "Response \<Rightarrow> number \<Rightarrow> header_value" where
  "attribute r n = (if has_setHeader r then NumberValue n else StringValue (String_number n))"

section \<open>Sequences of requests on the reference store\<close>

text \<open>
  \<open>decideAll\<close> runs the guard once for each request of a sequence, every request
  arriving for the same route from the same caller with a fresh request object, a number
  of seconds after the one before; it returns which requests were allowed. \<open>serveAll\<close>
  runs the whole path (guard, handler, interceptor) for each request, every request with
  the outcome of its handler.
\<close>

fun decideAll ::
  "(string \<Rightarrow> string) \<Rightarrow> mem RateLimitOptions \<Rightarrow> ExecutionContext \<Rightarrow> nat list \<Rightarrow> mem world
     \<Rightarrow> bool list \<times> mem world" where
  "decideAll sha256 options ctx [] w = ([], w)"
| "decideAll sha256 options ctx (d # ds) w =
     (case canActivate sha256 options ctx (advance d w) of
        (r, ctx', w') \<Rightarrow>
          (case decideAll sha256 options ctx ds w' of
             (rs, w'') \<Rightarrow> ((r = Inr True) # rs, w'')))"

fun serveAll ::
  "(string \<Rightarrow> string) \<Rightarrow> mem RateLimitOptions \<Rightarrow> ExecutionContext \<Rightarrow> (nat \<times> CallHandler) list
     \<Rightarrow> mem world \<Rightarrow> (HttpException + CallHandler) list \<times> mem world" where
  "serveAll sha256 options ctx [] w = ([], w)"
| "serveAll sha256 options ctx ((d, next) # reqs) w =
     (case serve sha256 options ctx next (advance d w) of
        (r, w') \<Rightarrow>
          (case serveAll sha256 options ctx reqs w' of
             (rs, w'') \<Rightarrow> (r # rs, w'')))"

text \<open>A request counts as successful when its handler ran and left a status below 400.\<close>

fun successful :: "HttpException + CallHandler \<Rightarrow> bool" where
  "successful (Inr (Emits sc)) = (sc < 400)"
| "successful _ = False"

fun call_key :: "store_call \<Rightarrow> string" where
  "call_key (Ttl k) = k"
| "call_key (Get k) = k"
| "call_key (Incr k) = k"
| "call_key (Expire k secs) = k"

fun is_expire :: "store_call \<Rightarrow> bool" where
  "is_expire (Expire k secs) = True"
| "is_expire _ = False"

text \<open>The number of \<open>expire\<close> calls in a trace.\<close>

definition expires :: "store_call list \<Rightarrow> nat" where
  "expires log = length (filter is_expire log)"

section \<open>The default tracker as the specification words it\<close>

text \<open>
  The specification describes the default tracker as "the first available of" the
  resolved client IP, the forwarded-for header value and the literal \<open>unknown\<close>.
  \<open>spec_firstAvailable\<close> follows these words for a given reading of "available";
  it is compared with \<open>getTracker\<close> and is not part of the code.
\<close>

fun spec_firstAvailable :: "(string option \<Rightarrow> bool) \<Rightarrow> string option list \<Rightarrow> string \<Rightarrow> string" where
  "spec_firstAvailable available [] fallback = fallback"
| "spec_firstAvailable available (c # cs) fallback =
     (case c of
        Some v \<Rightarrow> if available c then v else spec_firstAvailable available cs fallback
      | None \<Rightarrow> spec_firstAvailable available cs fallback)"

definition forwardedFor :: "RateLimitRequest \<Rightarrow> string option" where
  "forwardedFor request = Option.bind (headers request) (\<lambda>h. h ''x-forwarded-for'')"

text \<open>The two readings of "available": present and non-empty, or merely present.\<close>

definition nonEmpty :: "string option \<Rightarrow> bool" where
  "nonEmpty c = (case c of None \<Rightarrow> False | Some v \<Rightarrow> v \<noteq> [])"

definition present :: "string option \<Rightarrow> bool" where
  "present c = (case c of None \<Rightarrow> False | Some v \<Rightarrow> True)"

section \<open>The demonstration application\<close>

text \<open>
  The routes and the module options of the repository's demonstration application
  (\<open>test/app.controller.ts\<close> and its module), used as concrete inputs: the module
  sets 5 requests per 30 seconds, counting all requests; \<open>rate\<close> overrides this with
  2 requests per 10 seconds, \<open>rateLimitAll\<close> with 10 per 60 seconds and its own
  message, and \<open>ignored\<close> is marked with \<open>@SkipRateLimit\<close>. \<open>digest\<close> stands in
  for SHA-256 in these examples.
\<close>

definition digest :: "string \<Rightarrow> string" where
  "digest v = ''sha256:'' @ v"

definition appOptions :: "mem RateLimitOptions" where
  "appOptions =
     \<lparr>duration = 30, limit = 5, errorMessage = Some ''Too Many Requests'',
      countAllRequests = Some True, storeClient = memStore\<rparr>"

definition AppController :: target where
  "AppController = \<lparr>name = ''AppController'', SKIP_RATE_LIMIT = None, RATE_LIMIT_OPTIONS = None\<rparr>"

definition rate :: target where
  "rate =
     \<lparr>name = ''rate'', SKIP_RATE_LIMIT = None,
      RATE_LIMIT_OPTIONS =
        Some \<lparr>duration = 10, limit = 2, errorMessage = None, countAllRequests = None\<rparr>\<rparr>"

definition rateLimitAll :: target where
  "rateLimitAll =
     \<lparr>name = ''rateLimitAll'', SKIP_RATE_LIMIT = None,
      RATE_LIMIT_OPTIONS =
        Some \<lparr>duration = 60, limit = 10, errorMessage = Some ''Rate Limit All'',
              countAllRequests = Some True\<rparr>\<rparr>"

definition ignored :: target where
  "ignored = \<lparr>name = ''ignored'', SKIP_RATE_LIMIT = Some True, RATE_LIMIT_OPTIONS = None\<rparr>"

definition incoming :: RateLimitRequest where
  "incoming = \<lparr>ip = Some ''203.0.113.7'', headers = Some Map.empty, rateLimitTracker = None\<rparr>"

definition outgoing :: Response where
  "outgoing =
     \<lparr>has_setHeader = True, has_header = True, sent_headers = Map.empty, statusCode = 200\<rparr>"

definition route :: "target \<Rightarrow> ExecutionContext" where
  "route handler =
     \<lparr>getClass = AppController, getHandler = handler, getRequest = incoming,
      getResponse = outgoing\<rparr>"

definition emptyStore :: "mem world" where
  "emptyStore = (\<lparr>clock = 0, cells = Map.empty\<rparr>, [])"

text \<open>
  A store in which the caller has already used up the ten requests of
  \<open>rateLimitAll\<close>, 25 seconds into the window of 60.
\<close>

definition usedUp :: "mem world" where
  "usedUp =
     (\<lparr>clock = 25,
       cells = [''sha256:AppController-rateLimitAll-203.0.113.7'' \<mapsto>
                  \<lparr>val = 10, expireAt = Some 60\<rparr>]\<rparr>, [])"

text \<open>
  A route of the demonstration application's controller that asks for success-only
  counting (four requests per 10 seconds) while the module counts all requests.
\<close>

definition quiet :: target where
  "quiet =
     \<lparr>name = ''quiet'', SKIP_RATE_LIMIT = None,
      RATE_LIMIT_OPTIONS =
        Some \<lparr>duration = 10, limit = 4, errorMessage = None,
              countAllRequests = Some False\<rparr>\<rparr>"

text \<open>A module configured without \<open>countAllRequests\<close>: only successes are counted.\<close>

definition successOnly :: "mem RateLimitOptions" where
  "successOnly =
     \<lparr>duration = 30, limit = 5, errorMessage = None, countAllRequests = None,
      storeClient = memStore\<rparr>"

text \<open>
  The requests of the worked sequences: each pairs the seconds elapsed since the request
  before with the outcome of the handler. \<open>mixed\<close> holds five attempts of which two
  succeed before the limit of \<open>rate\<close> is reached; \<open>burst\<close> three within seven seconds;
  \<open>steady\<close> four successful attempts. \<open>rateUsed\<close> is a store in which the caller
  has two successful requests on \<open>rate\<close> counted.
\<close>

definition mixed :: "(nat \<times> CallHandler) list" where
  "mixed = [(0, Throws), (1, Emits 200), (1, Emits 500), (1, Emits 201), (1, Emits 200)]"

definition burst :: "(nat \<times> CallHandler) list" where
  "burst = [(0, Emits 200), (3, Throws), (4, Emits 200)]"

definition steady :: "(nat \<times> CallHandler) list" where
  "steady = [(0, Emits 200), (1, Emits 200), (1, Emits 200), (1, Emits 200)]"

definition rateUsed :: "mem world" where
  "rateUsed =
     (\<lparr>clock = 4,
       cells = [''sha256:AppController-rate-203.0.113.7'' \<mapsto>
                  \<lparr>val = 2, expireAt = Some 11\<rparr>]\<rparr>, [])"

text \<open>
  A controller decorated with \<open>@RateLimit\<close> as a whole (one request per 60
  seconds, with its own message), a handler of it that carries no decorator, and a store
  in which the caller has already made that one request.
\<close>

definition ReportsController :: target where
  "ReportsController =
     \<lparr>name = ''ReportsController'', SKIP_RATE_LIMIT = None,
      RATE_LIMIT_OPTIONS =
        Some \<lparr>duration = 60, limit = 1, errorMessage = Some ''Slow down'',
              countAllRequests = Some True\<rparr>\<rparr>"

definition listReports :: target where
  "listReports = \<lparr>name = ''list'', SKIP_RATE_LIMIT = None, RATE_LIMIT_OPTIONS = None\<rparr>"

definition reports :: ExecutionContext where
  "reports =
     \<lparr>getClass = ReportsController, getHandler = listReports, getRequest = incoming,
      getResponse = outgoing\<rparr>"

definition reportsUsed :: "mem world" where
  "reportsUsed =
     (\<lparr>clock = 5,
       cells = [''sha256:ReportsController-list-203.0.113.7'' \<mapsto>
                  \<lparr>val = 1, expireAt = Some 60\<rparr>]\<rparr>, [])"

text \<open>
  A request whose resolved client IP is the empty string, behind a proxy that set the
  forwarded-for header.
\<close>

definition blankIp :: RateLimitRequest where
  "blankIp =
     \<lparr>ip = Some [], headers = Some [''x-forwarded-for'' \<mapsto> ''198.51.100.4''],
      rateLimitTracker = None\<rparr>"

definition proxied :: RateLimitRequest where
  "proxied =
     \<lparr>ip = None, headers = Some [''x-forwarded-for'' \<mapsto> ''198.51.100.4''],
      rateLimitTracker = None\<rparr>"

section \<open>The code's operators compute the named quantities\<close>

lemma skip_eq:
  "truthy_boolean (getAllAndOverride SKIP_RATE_LIMIT [getHandler ctx, getClass ctx]) = bypass ctx"
  by (auto simp: truthy_boolean_def bypass_def split: option.splits)

lemma custom_eq:
  "getAllAndOverride RATE_LIMIT_OPTIONS [getHandler ctx, getClass ctx] = routeOptions ctx"
  by (simp add: routeOptions_def split: option.splits)

lemma limit_eq:
  "or_number_default (map_option limit (routeOptions ctx)) (limit options)
     = effectiveLimit options ctx"
  by (simp add: or_number_default_def effectiveLimit_def split: option.splits)

lemma duration_eq:
  "or_number_default (map_option duration (routeOptions ctx)) (duration options)
     = windowSeconds options ctx"
  by (simp add: or_number_default_def windowSeconds_def split: option.splits)

lemma decision_mode_eq:
  "or_boolean_default
     (or_boolean (Option.bind (routeOptions ctx) countAllRequests) (countAllRequests options))
     False
     = decisionCountAll options ctx"
  by (auto simp: or_boolean_default_def or_boolean_def truthy_boolean_def decisionCountAll_def
      perRouteCountAll_def split: option.splits)

lemma settlement_mode_eq:
  "nullish_default
     (nullish (Option.bind (routeOptions ctx) countAllRequests) (countAllRequests options))
     False
     = settlementCountAll options ctx"
  by (auto simp: nullish_default_def nullish_def settlementCountAll_def perRouteCountAll_def
      split: option.splits)

lemmas resolve_eqs = skip_eq custom_eq limit_eq duration_eq decision_mode_eq settlement_mode_eq

lemma canActivate_bypass: "bypass ctx \<Longrightarrow> canActivate sha256 options ctx w = (Inr True, ctx, w)"
  by (simp add: canActivate_def resolve_eqs del: getAllAndOverride.simps)

lemma canActivate_countAll:
  assumes "\<not> bypass ctx" and "decisionCountAll options ctx"
    and "ttl (storeClient options) (limitingKey sha256 ctx) s = (t, s1)"
    and "incr (storeClient options) (limitingKey sha256 ctx) s1 = (n, s2)"
  shows "canActivate sha256 options ctx (s, log) =
     (let k = limitingKey sha256 ctx; L = effectiveLimit options ctx; D = windowSeconds options ctx;
          w' = (if n = 1 then (expire (storeClient options) k D s2, log @ [Ttl k, Incr k, Expire k D])
                else (s2, log @ [Ttl k, Incr k]))
      in if n > L then
           (Inl (RateLimitException (Some (getErrorMessage options ctx))),
            bind_key k ctx (setHeadersLimit (getResponse ctx) (resetTime D t)), w')
         else
           (Inr True,
            bind_key k ctx (setHeadersAllow (getResponse ctx) (Num (L - n)) L (resetTime D t)), w'))"
  using assms
  by (simp add: canActivate_def resolve_eqs Let_def limitingKey_def call_ttl_def call_incr_def
      call_expire_def resetTime_def bind_key_def del: getAllAndOverride.simps)

lemma canActivate_successOnly:
  assumes "\<not> bypass ctx" and "\<not> decisionCountAll options ctx"
    and "ttl (storeClient options) (limitingKey sha256 ctx) s = (t, s1)"
    and "get (storeClient options) (limitingKey sha256 ctx) s1 = (v, s2)"
  shows "canActivate sha256 options ctx (s, log) =
     (let k = limitingKey sha256 ctx; L = effectiveLimit options ctx; D = windowSeconds options ctx;
          w' = (s2, log @ [Ttl k, Get k])
      in if ge_number (readCount v) (Num L) then
           (Inl (RateLimitException (Some (getErrorMessage options ctx))),
            bind_key k ctx (setHeadersLimit (getResponse ctx) (resetTime D t)), w')
         else
           (Inr True,
            bind_key k ctx (setHeadersAllow (getResponse ctx) (minus_number (Num L) (readCount v)) L (resetTime D t)), w'))"
  using assms
  by (simp add: canActivate_def resolve_eqs Let_def limitingKey_def call_ttl_def call_get_def
      resetTime_def bind_key_def readCount_def del: getAllAndOverride.simps)


section \<open>\<open>parseInt\<close> reads back what \<open>String\<close> prints\<close>

lemma lt10_cases: "(d::nat) < 10 \<Longrightarrow> d = 0 \<or> d = 1 \<or> d = 2 \<or> d = 3 \<or> d = 4 \<or> d = 5 \<or> d = 6 \<or> d = 7 \<or> d = 8 \<or> d = 9"
  by arith

lemma digit_char_props:
  assumes "d < 10"
  shows "isDigit (digit_char d)" and "digit_val (digit_char d) = d"
    and "\<not> isWhiteSpace (digit_char d)" and "digit_char d \<noteq> CHR ''-''" and "digit_char d \<noteq> CHR ''+''"
  using lt10_cases [OF assms]
  by (auto simp: digit_char_def isDigit_def digit_val_def isWhiteSpace_def)

lemma digits_all_digit: "c \<in> set (digits n) \<Longrightarrow> isDigit c"
proof (induction n arbitrary: c rule: digits.induct)
  case (1 n)
  show ?case
  proof (cases "n < 10")
    case True
    with "1.prems" show ?thesis
      by (simp add: digits.simps [of n] digit_char_props)
  next
    case False
    with "1.prems" "1.IH" show ?thesis
      by (auto simp: digits.simps [of n] digit_char_props)
  qed
qed

lemma digits_not_Nil: "digits n \<noteq> []"
  by (subst digits.simps) simp

lemma digits_value: "foldl (\<lambda>a c. 10 * a + digit_val c) 0 (digits n) = n"
proof (induction n rule: digits.induct)
  case (1 n)
  show ?case
  proof (cases "n < 10")
    case True
    then show ?thesis
      by (simp add: digits.simps [of n] digit_char_props)
  next
    case False
    with "1.IH" show ?thesis
      by (simp add: digits.simps [of n] digit_char_props)
  qed
qed

lemma digits_hd: "\<exists>c r. digits n = c # r \<and> isDigit c"
  using digits_not_Nil [of n] digits_all_digit [of _ n]
  by (cases "digits n") auto

lemma isDigit_plain: "isDigit c \<Longrightarrow> \<not> isWhiteSpace c \<and> c \<noteq> CHR ''-'' \<and> c \<noteq> CHR ''+''"
  by (auto simp: isDigit_def isWhiteSpace_def)

lemma takeWhile_digits: "takeWhile isDigit (digits n) = digits n"
  by (simp add: takeWhile_eq_all_conv digits_all_digit)

lemma parseInt_digits: "parseInt (digits n) = Num (int n)"
proof -
  obtain c r where cr: "digits n = c # r" "isDigit c"
    using digits_hd by blast
  have drop: "dropWhile isWhiteSpace (digits n) = digits n"
    using cr isDigit_plain by simp
  have sign: "(case digits n of
                 [] \<Rightarrow> (1::int, digits n)
               | c # r \<Rightarrow> if c = CHR ''-'' then (- 1, r)
                          else if c = CHR ''+'' then (1, r) else (1, digits n))
              = (1, digits n)"
    using cr isDigit_plain by auto
  show ?thesis
    by (simp add: parseInt_def drop sign takeWhile_digits digits_not_Nil digits_value)
qed

lemma parseInt_minus_digits: "parseInt (CHR ''-'' # digits n) = Num (- int n)"
proof -
  have "\<not> isWhiteSpace CHR ''-''" by (simp add: isWhiteSpace_def)
  then show ?thesis
    using digits_value [of n] digits_not_Nil [of n]
    by (simp add: parseInt_def takeWhile_digits)
qed

lemma parseInt_String_number: "parseInt (String_number (Num i)) = Num i"
  by (simp add: parseInt_digits parseInt_minus_digits)

lemma String_number_not_Nil: "String_number n \<noteq> []"
  by (cases n) (simp_all add: digits_not_Nil)

section \<open>The interceptor in closed form, and the reference store\<close>

lemma intercept_eq:
  "intercept options ctx next (s, log) =
     (case next of
        Throws \<Rightarrow> (s, log)
      | Emits sc \<Rightarrow>
          (case rateLimitTracker (getRequest ctx) of
             None \<Rightarrow> (s, log)
           | Some k \<Rightarrow>
               if settlementCountAll options ctx \<or> k = [] \<or> 400 \<le> sc then (s, log)
               else (case incr (storeClient options) k s of
                       (n, s1) \<Rightarrow>
                         if n = 1
                         then (expire (storeClient options) k (windowSeconds options ctx) s1,
                               log @ [Incr k, Expire k (windowSeconds options ctx)])
                         else (s1, log @ [Incr k]))))"
  by (simp add: intercept_def resolve_eqs handle_def Let_def truthy_string_def call_incr_def
      call_expire_def split: CallHandler.splits option.splits prod.splits
      del: getAllAndOverride.simps)

lemma settlement_implies_decision:
  "settlementCountAll options ctx \<Longrightarrow> decisionCountAll options ctx"
  by (auto simp: settlementCountAll_def decisionCountAll_def split: option.splits)

lemma modes_differ_iff:
  "(decisionCountAll options ctx \<noteq> settlementCountAll options ctx)
     = (perRouteCountAll ctx = Some False \<and> countAllRequests options = Some True)"
  by (auto simp: settlementCountAll_def decisionCountAll_def split: option.splits)

lemma mem_ops [simp]:
  "ttl memStore = mem_ttl" "get memStore = mem_get" "incr memStore = mem_incr"
  "expire memStore = mem_expire"
  by (simp_all add: memStore_def)

lemma live_advance:
  "live (s\<lparr>clock := clock s + int d\<rparr>) k =
     (case cells s k of
        None \<Rightarrow> None
      | Some e \<Rightarrow> (case expireAt e of
                     None \<Rightarrow> Some e
                   | Some t \<Rightarrow> if t \<le> clock s + int d then None else Some e))"
  by (simp add: live_def split: option.splits)

lemma guard_countAll_live:
  assumes st: "storeClient options = memStore"
    and nb: "\<not> bypass ctx" and ca: "decisionCountAll options ctx"
    and cell: "cells s (limitingKey sha256 ctx) = Some \<lparr>val = c, expireAt = Some e\<rparr>"
    and alive: "clock s + int d < e" and c0: "c \<noteq> 0"
  shows "canActivate sha256 options ctx (advance d (s, log)) =
           (if effectiveLimit options ctx < c + 1
            then Inl (RateLimitException (Some (getErrorMessage options ctx)))
            else Inr True,
            bind_key (limitingKey sha256 ctx) ctx
              (if effectiveLimit options ctx < c + 1
               then setHeadersLimit (getResponse ctx) (e - (clock s + int d))
               else setHeadersAllow (getResponse ctx) (Num (effectiveLimit options ctx - (c + 1)))
                      (effectiveLimit options ctx) (e - (clock s + int d))),
            (\<lparr>clock = clock s + int d,
              cells = (cells s)(limitingKey sha256 ctx \<mapsto> \<lparr>val = c + 1, expireAt = Some e\<rparr>)\<rparr>,
             log @ [Ttl (limitingKey sha256 ctx), Incr (limitingKey sha256 ctx)]))"
proof -
  let ?k = "limitingKey sha256 ctx"
  let ?s = "s\<lparr>clock := clock s + int d\<rparr>"
  have lv: "live ?s ?k = Some \<lparr>val = c, expireAt = Some e\<rparr>"
    using cell alive by (simp add: live_def)
  have t: "ttl (storeClient options) ?k ?s = (e - (clock s + int d), ?s)"
    using lv by (simp add: st mem_ttl_def)
  have i: "incr (storeClient options) ?k ?s =
             (c + 1, ?s\<lparr>cells := (cells ?s)(?k \<mapsto> \<lparr>val = c + 1, expireAt = Some e\<rparr>)\<rparr>)"
    using lv by (simp add: st mem_incr_def)
  show ?thesis
    unfolding advance_def fst_conv snd_conv
    using alive by (simp add: canActivate_countAll [OF nb ca t i] c0 resetTime_def Let_def)
qed

lemma guard_countAll_fresh:
  assumes st: "storeClient options = memStore"
    and nb: "\<not> bypass ctx" and ca: "decisionCountAll options ctx"
    and dead: "live (s\<lparr>clock := clock s + int d\<rparr>) (limitingKey sha256 ctx) = None"
  shows "canActivate sha256 options ctx (advance d (s, log)) =
           (if effectiveLimit options ctx < 1
            then Inl (RateLimitException (Some (getErrorMessage options ctx)))
            else Inr True,
            bind_key (limitingKey sha256 ctx) ctx
              (if effectiveLimit options ctx < 1
               then setHeadersLimit (getResponse ctx) (windowSeconds options ctx)
               else setHeadersAllow (getResponse ctx) (Num (effectiveLimit options ctx - 1))
                      (effectiveLimit options ctx) (windowSeconds options ctx)),
            (\<lparr>clock = clock s + int d,
              cells = (cells s)(limitingKey sha256 ctx \<mapsto>
                  \<lparr>val = 1, expireAt = Some (clock s + int d + windowSeconds options ctx)\<rparr>)\<rparr>,
             log @ [Ttl (limitingKey sha256 ctx), Incr (limitingKey sha256 ctx),
                    Expire (limitingKey sha256 ctx) (windowSeconds options ctx)]))"
proof -
  let ?k = "limitingKey sha256 ctx"
  let ?s = "s\<lparr>clock := clock s + int d\<rparr>"
  let ?s2 = "?s\<lparr>cells := (cells ?s)(?k \<mapsto> \<lparr>val = 1, expireAt = None\<rparr>)\<rparr>"
  have t: "ttl (storeClient options) ?k ?s = (- 2, ?s)"
    using dead by (simp add: st mem_ttl_def)
  have i: "incr (storeClient options) ?k ?s = (1, ?s2)"
    using dead by (simp add: st mem_incr_def)
  have e: "expire (storeClient options) ?k (windowSeconds options ctx)
             (s\<lparr>clock := clock s + int d,
                cells := (cells s)(?k \<mapsto> \<lparr>val = 1, expireAt = None\<rparr>)\<rparr>) =
             \<lparr>clock = clock s + int d,
               cells = (cells s)(?k \<mapsto>
                  \<lparr>val = 1, expireAt = Some (clock s + int d + windowSeconds options ctx)\<rparr>)\<rparr>"
    by (simp add: st mem_expire_def live_def)
  show ?thesis
    unfolding advance_def fst_conv snd_conv
    by (simp add: canActivate_countAll [OF nb ca t i] resetTime_def Let_def e)
qed

lemma decideAll_countAll_live:
  assumes st: "storeClient options = memStore"
    and nb: "\<not> bypass ctx" and ca: "decisionCountAll options ctx"
  shows "cells s (limitingKey sha256 ctx) = Some \<lparr>val = c, expireAt = Some e\<rparr> \<Longrightarrow>
         clock s + int (sum_list ds) < e \<Longrightarrow> 0 < c \<Longrightarrow>
         decideAll sha256 options ctx ds (s, log) =
           (map (\<lambda>i. c + 1 + int i \<le> effectiveLimit options ctx) [0..<length ds],
            (\<lparr>clock = clock s + int (sum_list ds),
              cells = (cells s)(limitingKey sha256 ctx \<mapsto>
                  \<lparr>val = c + int (length ds), expireAt = Some e\<rparr>)\<rparr>,
             log @ concat (replicate (length ds)
                             [Ttl (limitingKey sha256 ctx), Incr (limitingKey sha256 ctx)])))"
proof (induction ds arbitrary: s log c)
  case Nil
  then show ?case by (simp add: map_upd_triv)
next
  case (Cons d ds)
  let ?k = "limitingKey sha256 ctx"
  let ?s' = "\<lparr>clock = clock s + int d,
               cells = (cells s)(?k \<mapsto> \<lparr>val = c + 1, expireAt = Some e\<rparr>)\<rparr>"
  have alive: "clock s + int d < e"
    using Cons.prems(2) by simp
  have c0: "c \<noteq> 0"
    using Cons.prems(3) by simp
  have step: "canActivate sha256 options ctx (advance d (s, log)) =
           (if effectiveLimit options ctx < c + 1
            then Inl (RateLimitException (Some (getErrorMessage options ctx)))
            else Inr True,
            bind_key ?k ctx
              (if effectiveLimit options ctx < c + 1
               then setHeadersLimit (getResponse ctx) (e - (clock s + int d))
               else setHeadersAllow (getResponse ctx) (Num (effectiveLimit options ctx - (c + 1)))
                      (effectiveLimit options ctx) (e - (clock s + int d))),
            (?s', log @ [Ttl ?k, Incr ?k]))"
    by (rule guard_countAll_live [OF st nb ca Cons.prems(1) alive c0])
  have rest: "decideAll sha256 options ctx ds (?s', log @ [Ttl ?k, Incr ?k]) =
           (map (\<lambda>i. (c + 1) + 1 + int i \<le> effectiveLimit options ctx) [0..<length ds],
            (\<lparr>clock = clock ?s' + int (sum_list ds),
              cells = (cells ?s')(?k \<mapsto>
                  \<lparr>val = (c + 1) + int (length ds), expireAt = Some e\<rparr>)\<rparr>,
             (log @ [Ttl ?k, Incr ?k]) @ concat (replicate (length ds) [Ttl ?k, Incr ?k])))"
    using Cons.prems by (intro Cons.IH) simp_all
  have flag: "((if effectiveLimit options ctx < c + 1
            then Inl (RateLimitException (Some (getErrorMessage options ctx)))
            else Inr True) = (Inr True :: HttpException + bool)) = (c + 1 \<le> effectiveLimit options ctx)"
    by auto
  have cons: "decideAll sha256 options ctx (d # ds) (s, log) =
           (case decideAll sha256 options ctx ds (?s', log @ [Ttl ?k, Incr ?k]) of
              (rs, w'') \<Rightarrow> ((c + 1 \<le> effectiveLimit options ctx) # rs, w''))"
    by (simp only: decideAll.simps step prod.case flag)
  show ?case
    unfolding cons rest prod.case
    by (simp add: map_upt_Suc add.assoc del: upt_Suc) (simp add: fun_upd_def)
qed

lemma canActivate_limited:
  assumes nb: "\<not> bypass ctx"
    and run: "canActivate sha256 options ctx (s, log) = (r, ctx', (s', log'))"
  shows "getRequest ctx' = (getRequest ctx)\<lparr>rateLimitTracker := Some (limitingKey sha256 ctx)\<rparr>"
    and "log' = log @ [Ttl (limitingKey sha256 ctx), Incr (limitingKey sha256 ctx)] \<or>
         log' = log @ [Ttl (limitingKey sha256 ctx), Incr (limitingKey sha256 ctx),
                       Expire (limitingKey sha256 ctx) (windowSeconds options ctx)] \<or>
         log' = log @ [Ttl (limitingKey sha256 ctx), Get (limitingKey sha256 ctx)]"
proof -
  let ?k = "limitingKey sha256 ctx"
  obtain t s1 where t: "ttl (storeClient options) ?k s = (t, s1)"
    by (cases "ttl (storeClient options) ?k s") auto
  obtain n s2 where i: "incr (storeClient options) ?k s1 = (n, s2)"
    by (cases "incr (storeClient options) ?k s1") auto
  obtain v s3 where g: "get (storeClient options) ?k s1 = (v, s3)"
    by (cases "get (storeClient options) ?k s1") auto
  show "getRequest ctx' = (getRequest ctx)\<lparr>rateLimitTracker := Some ?k\<rparr>"
  proof (cases "decisionCountAll options ctx")
    case True
    from run show ?thesis
      unfolding canActivate_countAll [OF nb True t i]
      by (auto simp: Let_def bind_key_def split: if_splits)
  next
    case False
    from run show ?thesis
      unfolding canActivate_successOnly [OF nb False t g]
      by (auto simp: Let_def bind_key_def split: if_splits)
  qed
  show "log' = log @ [Ttl ?k, Incr ?k] \<or>
        log' = log @ [Ttl ?k, Incr ?k, Expire ?k (windowSeconds options ctx)] \<or>
        log' = log @ [Ttl ?k, Get ?k]"
  proof (cases "decisionCountAll options ctx")
    case True
    from run show ?thesis
      unfolding canActivate_countAll [OF nb True t i]
      by (auto simp: Let_def split: if_splits)
  next
    case False
    from run show ?thesis
      unfolding canActivate_successOnly [OF nb False t g]
      by (auto simp: Let_def split: if_splits)
  qed
qed

lemma clamp_remaining:
  "(if lt_number (minus_number (Num L) count) (Num 0) then Num 0 else minus_number (Num L) count) =
     (case count of Num c \<Rightarrow> Num (max 0 (L - c)) | NaN \<Rightarrow> NaN)"
  by (cases count) auto

lemma setHeadersLimit_eq:
  "has_setHeader r \<or> has_header r \<Longrightarrow>
   setHeadersLimit r t = r\<lparr>sent_headers := (sent_headers r)(''Retry-After'' \<mapsto> attribute r (Num t))\<rparr>"
  by (auto simp: setHeadersLimit_def attribute_def)

lemma setHeadersAllow_eq:
  "has_setHeader r \<or> has_header r \<Longrightarrow>
   setHeadersAllow r remaining L t =
     r\<lparr>sent_headers := (sent_headers r)
         (''X-RateLimit-Limit'' \<mapsto> attribute r (Num L),
          ''X-RateLimit-Remaining'' \<mapsto>
             attribute r (if lt_number remaining (Num 0) then Num 0 else remaining),
          ''X-RateLimit-Reset'' \<mapsto> attribute r (Num t))\<rparr>"
  by (auto simp: setHeadersAllow_def attribute_def Let_def)

lemma getErrorMessage_eq:
  "getErrorMessage options ctx =
     (case Option.bind (RATE_LIMIT_OPTIONS (getHandler ctx)) errorMessage of
        Some m \<Rightarrow> m
      | None \<Rightarrow> (case errorMessage options of Some m \<Rightarrow> m | None \<Rightarrow> ''Too Many Requests''))"
  by (simp add: getErrorMessage_def nullish_default_def nullish_def split: option.splits)

lemma canActivate_world:
  assumes nb: "\<not> bypass ctx"
    and run: "canActivate sha256 options ctx (s, log) = (r, ctx', w')"
    and s1: "s1 = snd (ttl (storeClient options) (limitingKey sha256 ctx) s)"
  shows "w' =
     (if decisionCountAll options ctx then
        (if fst (incr (storeClient options) (limitingKey sha256 ctx) s1) = 1
         then (expire (storeClient options) (limitingKey sha256 ctx) (windowSeconds options ctx)
                 (snd (incr (storeClient options) (limitingKey sha256 ctx) s1)),
               log @ [Ttl (limitingKey sha256 ctx), Incr (limitingKey sha256 ctx),
                      Expire (limitingKey sha256 ctx) (windowSeconds options ctx)])
         else (snd (incr (storeClient options) (limitingKey sha256 ctx) s1),
               log @ [Ttl (limitingKey sha256 ctx), Incr (limitingKey sha256 ctx)]))
      else (snd (get (storeClient options) (limitingKey sha256 ctx) s1),
            log @ [Ttl (limitingKey sha256 ctx), Get (limitingKey sha256 ctx)]))"
proof -
  let ?k = "limitingKey sha256 ctx"
  obtain t where t: "ttl (storeClient options) ?k s = (t, s1)"
    using s1 by (cases "ttl (storeClient options) ?k s") auto
  obtain n s2 where i: "incr (storeClient options) ?k s1 = (n, s2)"
    by (cases "incr (storeClient options) ?k s1") auto
  obtain v s3 where g: "get (storeClient options) ?k s1 = (v, s3)"
    by (cases "get (storeClient options) ?k s1") auto
  show ?thesis
  proof (cases "decisionCountAll options ctx")
    case True
    from run show ?thesis
      unfolding canActivate_countAll [OF nb True t i]
      by (auto simp: Let_def True i split: if_splits)
  next
    case False
    from run show ?thesis
      unfolding canActivate_successOnly [OF nb False t g]
      by (auto simp: Let_def False g split: if_splits)
  qed
qed

lemma canActivate_verdict:
  assumes nb: "\<not> bypass ctx"
    and run: "canActivate sha256 options ctx (s, log) = (r, ctx', w')"
    and s1: "s1 = snd (ttl (storeClient options) (limitingKey sha256 ctx) s)"
  shows "r = (if (if decisionCountAll options ctx
                  then effectiveLimit options ctx
                         < fst (incr (storeClient options) (limitingKey sha256 ctx) s1)
                  else ge_number
                         (readCount (fst (get (storeClient options) (limitingKey sha256 ctx) s1)))
                         (Num (effectiveLimit options ctx)))
              then Inl (RateLimitException (Some (getErrorMessage options ctx)))
              else Inr True)"
proof -
  let ?k = "limitingKey sha256 ctx"
  obtain t where t: "ttl (storeClient options) ?k s = (t, s1)"
    using s1 by (cases "ttl (storeClient options) ?k s") auto
  obtain n s2 where i: "incr (storeClient options) ?k s1 = (n, s2)"
    by (cases "incr (storeClient options) ?k s1") auto
  obtain v s3 where g: "get (storeClient options) ?k s1 = (v, s3)"
    by (cases "get (storeClient options) ?k s1") auto
  show ?thesis
  proof (cases "decisionCountAll options ctx")
    case True
    from run show ?thesis
      unfolding canActivate_countAll [OF nb True t i]
      by (auto simp: Let_def True i split: if_splits)
  next
    case False
    from run show ?thesis
      unfolding canActivate_successOnly [OF nb False t g]
      by (auto simp: Let_def False g split: if_splits)
  qed
qed

lemma rejected_response:
  assumes nb: "\<not> bypass ctx"
    and api: "has_setHeader (getResponse ctx) \<or> has_header (getResponse ctx)"
    and t: "ttl (storeClient options) (limitingKey sha256 ctx) s = (t, s1)"
    and run: "canActivate sha256 options ctx (s, log) = (Inl e, ctx', w')"
  shows "getResponse ctx' =
           (getResponse ctx)\<lparr>sent_headers := (sent_headers (getResponse ctx))
              (''Retry-After'' \<mapsto>
                 attribute (getResponse ctx)
                   (Num (if t < 0 then windowSeconds options ctx else t)))\<rparr>"
    and "e = \<lparr>message =
                (case Option.bind (RATE_LIMIT_OPTIONS (getHandler ctx)) errorMessage of
                   Some m \<Rightarrow> m
                 | None \<Rightarrow> (case errorMessage options of
                              Some m \<Rightarrow> m
                            | None \<Rightarrow> ''Too Many Requests'')),
              status = 429\<rparr>"
proof -
  let ?k = "limitingKey sha256 ctx"
  let ?T = "if t < 0 then windowSeconds options ctx else t"
  obtain n s2 where i: "incr (storeClient options) ?k s1 = (n, s2)"
    by (cases "incr (storeClient options) ?k s1") auto
  obtain v s3 where g: "get (storeClient options) ?k s1 = (v, s3)"
    by (cases "get (storeClient options) ?k s1") auto
  have both: "getResponse ctx' = setHeadersLimit (getResponse ctx) ?T \<and>
              e = RateLimitException (Some (getErrorMessage options ctx))"
  proof (cases "decisionCountAll options ctx")
    case True
    from run show ?thesis
      unfolding canActivate_countAll [OF nb True t i]
      by (auto simp: Let_def bind_key_def resetTime_def split: if_splits)
  next
    case False
    from run show ?thesis
      unfolding canActivate_successOnly [OF nb False t g]
      by (auto simp: Let_def bind_key_def resetTime_def split: if_splits)
  qed
  show "getResponse ctx' =
           (getResponse ctx)\<lparr>sent_headers := (sent_headers (getResponse ctx))
              (''Retry-After'' \<mapsto> attribute (getResponse ctx) (Num ?T))\<rparr>"
    using both setHeadersLimit_eq [OF api] by simp
  show "e = \<lparr>message =
                (case Option.bind (RATE_LIMIT_OPTIONS (getHandler ctx)) errorMessage of
                   Some m \<Rightarrow> m
                 | None \<Rightarrow> (case errorMessage options of
                              Some m \<Rightarrow> m
                            | None \<Rightarrow> ''Too Many Requests'')),
              status = 429\<rparr>"
    using both by (simp add: RateLimitException_def nullish_default_def getErrorMessage_eq)
qed

lemma allowed_response:
  assumes nb: "\<not> bypass ctx"
    and api: "has_setHeader (getResponse ctx) \<or> has_header (getResponse ctx)"
    and t: "ttl (storeClient options) (limitingKey sha256 ctx) s = (t, s1)"
    and run: "canActivate sha256 options ctx (s, log) = (Inr ok, ctx', (s', log'))"
    and count: "count = (if decisionCountAll options ctx
                         then Num (fst (incr (storeClient options) (limitingKey sha256 ctx) s1))
                         else readCount (fst (get (storeClient options) (limitingKey sha256 ctx) s1)))"
  shows "getResponse ctx' =
           (getResponse ctx)\<lparr>sent_headers := (sent_headers (getResponse ctx))
              (''X-RateLimit-Limit'' \<mapsto>
                 attribute (getResponse ctx) (Num (effectiveLimit options ctx)),
               ''X-RateLimit-Remaining'' \<mapsto>
                 attribute (getResponse ctx)
                   (case count of
                      Num c \<Rightarrow> Num (max 0 (effectiveLimit options ctx - c))
                    | NaN \<Rightarrow> NaN),
               ''X-RateLimit-Reset'' \<mapsto>
                 attribute (getResponse ctx)
                   (Num (if t < 0 then windowSeconds options ctx else t)))\<rparr>"
    and "\<exists>later. log' = log @ Ttl (limitingKey sha256 ctx) # later"
proof -
  let ?k = "limitingKey sha256 ctx"
  let ?L = "effectiveLimit options ctx"
  let ?T = "if t < 0 then windowSeconds options ctx else t"
  obtain n s2 where i: "incr (storeClient options) ?k s1 = (n, s2)"
    by (cases "incr (storeClient options) ?k s1") auto
  obtain v s3 where g: "get (storeClient options) ?k s1 = (v, s3)"
    by (cases "get (storeClient options) ?k s1") auto
  have both: "getResponse ctx' = setHeadersAllow (getResponse ctx) (minus_number (Num ?L) count) ?L ?T \<and>
              (\<exists>later. log' = log @ Ttl ?k # later)"
  proof (cases "decisionCountAll options ctx")
    case True
    from run show ?thesis
      unfolding canActivate_countAll [OF nb True t i]
      by (auto simp: Let_def bind_key_def resetTime_def count True i split: if_splits)
  next
    case False
    from run show ?thesis
      unfolding canActivate_successOnly [OF nb False t g]
      by (auto simp: Let_def bind_key_def resetTime_def count False g split: if_splits)
  qed
  from both show "getResponse ctx' =
           (getResponse ctx)\<lparr>sent_headers := (sent_headers (getResponse ctx))
              (''X-RateLimit-Limit'' \<mapsto>
                 attribute (getResponse ctx) (Num (effectiveLimit options ctx)),
               ''X-RateLimit-Remaining'' \<mapsto>
                 attribute (getResponse ctx)
                   (case count of
                      Num c \<Rightarrow> Num (max 0 (effectiveLimit options ctx - c))
                    | NaN \<Rightarrow> NaN),
               ''X-RateLimit-Reset'' \<mapsto>
                 attribute (getResponse ctx)
                   (Num (if t < 0 then windowSeconds options ctx else t)))\<rparr>"
    by (simp add: setHeadersAllow_eq [OF api] clamp_remaining)
  from both show "\<exists>later. log' = log @ Ttl (limitingKey sha256 ctx) # later"
    by simp
qed

section \<open>Counting events on the reference store\<close>

lemma bind_key_simps [simp]:
  "routeOptions (bind_key k ctx r) = routeOptions ctx"
  "settlementCountAll options (bind_key k ctx r) = settlementCountAll options ctx"
  "windowSeconds options (bind_key k ctx r) = windowSeconds options ctx"
  "rateLimitTracker (getRequest (bind_key k ctx r)) = Some k"
  by (simp_all add: bind_key_def routeOptions_def settlementCountAll_def perRouteCountAll_def
      windowSeconds_def split: option.splits)

lemma canActivate_context:
  assumes nb: "\<not> bypass ctx"
    and run: "canActivate sha256 options ctx (s, log) = (r, ctx', w')"
  shows "\<exists>resp. ctx' = bind_key (limitingKey sha256 ctx) ctx resp"
proof -
  let ?k = "limitingKey sha256 ctx"
  obtain t s1 where t: "ttl (storeClient options) ?k s = (t, s1)"
    by (cases "ttl (storeClient options) ?k s") auto
  obtain n s2 where i: "incr (storeClient options) ?k s1 = (n, s2)"
    by (cases "incr (storeClient options) ?k s1") auto
  obtain v s3 where g: "get (storeClient options) ?k s1 = (v, s3)"
    by (cases "get (storeClient options) ?k s1") auto
  show ?thesis
  proof (cases "decisionCountAll options ctx")
    case True
    from run show ?thesis
      unfolding canActivate_countAll [OF nb True t i]
      by (auto simp: Let_def split: if_splits)
  next
    case False
    from run show ?thesis
      unfolding canActivate_successOnly [OF nb False t g]
      by (auto simp: Let_def split: if_splits)
  qed
qed

lemma advance_window:
  assumes "within_window s k H" and "clock s + int d \<le> H"
  shows "counter (s\<lparr>clock := clock s + int d\<rparr>) k = counter s k"
    and "within_window (s\<lparr>clock := clock s + int d\<rparr>) k H"
  using assms
  by (auto simp: within_window_def counter_def live_def split: option.splits)

lemma count_event:
  assumes "within_window s k H" and "clock s \<le> H" and "H < clock s + D"
    and "mem_incr k s = (n, s2)"
    and "s3 = (if n = 1 then mem_expire k D s2 else s2)"
  shows "n = counter s k + 1" and "counter s3 k = counter s k + 1"
    and "within_window s3 k H" and "clock s3 = clock s"
  using assms
  by (auto simp: within_window_def counter_def live_def mem_incr_def mem_expire_def Let_def
      split: option.splits if_splits)

lemma mem_read:
  "mem_ttl k s = (t, s1) \<Longrightarrow> s1 = s"
  "mem_get k s = (v, s2) \<Longrightarrow> s2 = s \<and> readCount v = Num (counter s k)"
  by (auto simp: mem_ttl_def mem_get_def readCount_def counter_def parseInt_String_number
      String_number_not_Nil simp del: String_number.simps split: option.splits)

lemma expires_append [simp]: "expires (xs @ ys) = expires xs + expires ys"
  by (simp add: expires_def)

lemma expires_simps [simp]:
  "expires [] = 0" "expires (Ttl k # xs) = expires xs" "expires (Get k # xs) = expires xs"
  "expires (Incr k # xs) = expires xs" "expires (Expire k d # xs) = Suc (expires xs)"
  by (simp_all add: expires_def)

lemma guard_mem:
  assumes st: "storeClient options = memStore"
    and nb: "\<not> bypass ctx"
    and ww: "within_window s (limitingKey sha256 ctx) H"
    and lo: "clock s \<le> H" and hi: "H < clock s + windowSeconds options ctx"
    and run: "canActivate sha256 options ctx (s, log) = (r, ctx', (s', log'))"
  shows "isl r = (if decisionCountAll options ctx
                  then effectiveLimit options ctx < counter s (limitingKey sha256 ctx) + 1
                  else effectiveLimit options ctx \<le> counter s (limitingKey sha256 ctx))"
    and "counter s' (limitingKey sha256 ctx) =
           counter s (limitingKey sha256 ctx) + (if decisionCountAll options ctx then 1 else 0)"
    and "within_window s' (limitingKey sha256 ctx) H"
    and "clock s' = clock s"
    and "expires log' = expires log +
           (if decisionCountAll options ctx \<and> counter s (limitingKey sha256 ctx) = 0 then 1 else 0)"
proof -
  let ?k = "limitingKey sha256 ctx"
  let ?D = "windowSeconds options ctx"
  have s1: "s = snd (ttl (storeClient options) ?k s)"
    by (simp add: st mem_ttl_def split: option.splits)
  note world = canActivate_world [OF nb run s1]
  note verdict = canActivate_verdict [OF nb run s1]
  obtain n s2 where i: "mem_incr ?k s = (n, s2)"
    by (cases "mem_incr ?k s") auto
  define s3 where "s3 = (if n = 1 then mem_expire ?k ?D s2 else s2)"
  note ev = count_event [OF ww lo hi i s3_def]
  obtain v s4 where g: "mem_get ?k s = (v, s4)"
    by (cases "mem_get ?k s") auto
  note rd = mem_read(2) [OF g]
  show "isl r = (if decisionCountAll options ctx
                  then effectiveLimit options ctx < counter s ?k + 1
                  else effectiveLimit options ctx \<le> counter s ?k)"
    using verdict ev(1) rd by (simp add: st i g)
  show "counter s' ?k = counter s ?k + (if decisionCountAll options ctx then 1 else 0)"
    using world ev(2) rd by (auto simp: st i g s3_def split: if_splits)
  show "within_window s' ?k H"
    using world ev(3) rd ww by (auto simp: st i g s3_def split: if_splits)
  show "clock s' = clock s"
    using world ev(4) rd by (auto simp: st i g s3_def split: if_splits)
  show "expires log' = expires log +
           (if decisionCountAll options ctx \<and> counter s ?k = 0 then 1 else 0)"
    using world ev(1) by (auto simp: st i g split: if_splits)
qed

lemma settle_mem:
  assumes st: "storeClient options = memStore"
    and key: "rateLimitTracker (getRequest ctx) = Some k" and kne: "k \<noteq> []"
    and ww: "within_window s k H"
    and lo: "clock s \<le> H" and hi: "H < clock s + windowSeconds options ctx"
    and run: "intercept options ctx next (s, log) = (s', log')"
  shows "counter s' k = counter s k +
           (if \<not> settlementCountAll options ctx \<and> successful (Inr next) then 1 else 0)"
    and "within_window s' k H"
    and "clock s' = clock s"
    and "expires log' = expires log +
           (if \<not> settlementCountAll options ctx \<and> successful (Inr next) \<and> counter s k = 0
            then 1 else 0)"
proof -
  let ?D = "windowSeconds options ctx"
  obtain n s2 where i: "mem_incr k s = (n, s2)"
    by (cases "mem_incr k s") auto
  define s3 where "s3 = (if n = 1 then mem_expire k ?D s2 else s2)"
  note ev = count_event [OF ww lo hi i s3_def]
  have world: "(s', log') =
     (if \<not> settlementCountAll options ctx \<and> successful (Inr next)
      then (s3, log @ (if n = 1 then [Incr k, Expire k ?D] else [Incr k]))
      else (s, log))"
    using run [symmetric]
    by (cases "next") (auto simp: intercept_eq key kne st i s3_def)
  show "counter s' k = counter s k +
           (if \<not> settlementCountAll options ctx \<and> successful (Inr next) then 1 else 0)"
    using world ev(2) by (auto split: if_splits)
  show "within_window s' k H"
    using world ev(3) ww by (auto split: if_splits)
  show "clock s' = clock s"
    using world ev(4) by (auto split: if_splits)
  show "expires log' = expires log +
           (if \<not> settlementCountAll options ctx \<and> successful (Inr next) \<and> counter s k = 0
            then 1 else 0)"
    using world ev(1) by (auto split: if_splits)
qed

lemma serve_mem:
  assumes st: "storeClient options = memStore"
    and nb: "\<not> bypass ctx" and kne: "limitingKey sha256 ctx \<noteq> []"
    and ww: "within_window s (limitingKey sha256 ctx) H"
    and lo: "clock s + int d \<le> H" and hi: "H < clock s + int d + windowSeconds options ctx"
    and nonneg: "0 \<le> counter s (limitingKey sha256 ctx)"
    and run: "serve sha256 options ctx next (advance d (s, log)) = (r, (s', log'))"
  shows "isl r = (if decisionCountAll options ctx
                  then effectiveLimit options ctx < counter s (limitingKey sha256 ctx) + 1
                  else effectiveLimit options ctx \<le> counter s (limitingKey sha256 ctx))"
    and "counter s' (limitingKey sha256 ctx) =
           counter s (limitingKey sha256 ctx)
           + (if decisionCountAll options ctx then 1 else 0)
           + (if \<not> settlementCountAll options ctx \<and> successful r then 1 else 0)"
    and "within_window s' (limitingKey sha256 ctx) H"
    and "clock s' = clock s + int d"
    and "expires log' = expires log +
           (if counter s (limitingKey sha256 ctx) = 0 \<and> counter s' (limitingKey sha256 ctx) \<noteq> 0
            then 1 else 0)"
proof -
  let ?k = "limitingKey sha256 ctx"
  let ?a = "s\<lparr>clock := clock s + int d\<rparr>"
  have ca: "counter ?a ?k = counter s ?k" and wa: "within_window ?a ?k H"
    using advance_window [OF ww lo] by simp_all
  have la: "clock ?a \<le> H" and ha: "H < clock ?a + windowSeconds options ctx"
    using lo hi by simp_all
  obtain g ctx' sg lg where grun: "canActivate sha256 options ctx (?a, log) = (g, ctx', (sg, lg))"
    by (cases "canActivate sha256 options ctx (?a, log)") auto
  note G = guard_mem [OF st nb wa la ha grun, unfolded ca]
  obtain resp where ctx': "ctx' = bind_key ?k ctx resp"
    using canActivate_context [OF nb grun] by blast
  have gv: "g = Inr True \<or> (\<exists>e. g = Inl e)"
    using canActivate_verdict [OF nb grun refl] by (auto split: if_splits)
  show "isl r = (if decisionCountAll options ctx
                  then effectiveLimit options ctx < counter s ?k + 1
                  else effectiveLimit options ctx \<le> counter s ?k)"
    using run gv G(1) by (auto simp: serve_def advance_def grun split: if_splits)
  consider (rejected) e where "g = Inl e" | (allowed) "g = Inr True"
    using gv by blast
  then have rest: "counter s' ?k =
           counter s ?k + (if decisionCountAll options ctx then 1 else 0)
           + (if \<not> settlementCountAll options ctx \<and> successful r then 1 else 0) \<and>
         within_window s' ?k H \<and> clock s' = clock s + int d \<and>
         expires log' = expires lg +
           (if \<not> settlementCountAll options ctx \<and> successful r \<and> counter sg ?k = 0
            then 1 else 0)"
  proof cases
    case rejected
    then have "r = Inl e" "s' = sg" "log' = lg"
      using run by (auto simp: serve_def advance_def grun)
    then show ?thesis
      using G by simp
  next
    case allowed
    then have r: "r = Inr next" and irun: "intercept options ctx' next (sg, lg) = (s', log')"
      using run by (auto simp: serve_def advance_def grun)
    have key: "rateLimitTracker (getRequest ctx') = Some ?k"
      by (simp add: ctx')
    have lg': "clock sg \<le> H" and hg: "H < clock sg + windowSeconds options ctx'"
      using la ha G(4) by (simp_all add: ctx')
    note S = settle_mem [OF st key kne G(3) lg' hg irun]
    show ?thesis
      using S G by (simp add: r ctx')
  qed
  then show "counter s' ?k =
           counter s ?k + (if decisionCountAll options ctx then 1 else 0)
           + (if \<not> settlementCountAll options ctx \<and> successful r then 1 else 0)"
    and "within_window s' ?k H" and "clock s' = clock s + int d"
    by simp_all
  show "expires log' = expires log +
           (if counter s ?k = 0 \<and> counter s' ?k \<noteq> 0 then 1 else 0)"
    using rest G(2,5) nonneg by (auto split: if_splits)
qed

lemma serveAll_mem:
  assumes st: "storeClient options = memStore"
    and nb: "\<not> bypass ctx" and kne: "limitingKey sha256 ctx \<noteq> []"
  shows "within_window s (limitingKey sha256 ctx) H \<Longrightarrow>
         clock s + int (sum_list (map fst reqs)) \<le> H \<Longrightarrow>
         H < clock s + windowSeconds options ctx \<Longrightarrow>
         0 \<le> counter s (limitingKey sha256 ctx) \<Longrightarrow>
         serveAll sha256 options ctx reqs (s, log) = (rs, (s', log')) \<Longrightarrow>
         counter s' (limitingKey sha256 ctx) =
           counter s (limitingKey sha256 ctx)
           + (if decisionCountAll options ctx then int (length reqs) else 0)
           + (if settlementCountAll options ctx then 0 else int (length (filter successful rs))) \<and>
         expires log' = expires log +
           (if counter s (limitingKey sha256 ctx) = 0 \<and> counter s' (limitingKey sha256 ctx) \<noteq> 0
            then 1 else 0) \<and>
         clock s' = clock s + int (sum_list (map fst reqs)) \<and>
         within_window s' (limitingKey sha256 ctx) H \<and>
         length rs = length reqs"
proof (induction reqs arbitrary: s log rs)
  case Nil
  then show ?case by simp
next
  case (Cons q reqs)
  let ?k = "limitingKey sha256 ctx"
  obtain d "next" where q: "q = (d, next)"
    by (cases q) auto
  obtain r s1 l1 where step: "serve sha256 options ctx next (advance d (s, log)) = (r, (s1, l1))"
    by (cases "serve sha256 options ctx next (advance d (s, log))") auto
  obtain rs' where tail: "serveAll sha256 options ctx reqs (s1, l1) = (rs', (s', log'))"
    and rs: "rs = r # rs'"
    using Cons.prems(5) by (auto simp: q step split: prod.splits)
  have lo: "clock s + int d \<le> H"
    using Cons.prems(2) by (simp add: q)
  have hi: "H < clock s + int d + windowSeconds options ctx"
    using Cons.prems(3) by simp
  note S = serve_mem [OF st nb kne Cons.prems(1) lo hi Cons.prems(4) step]
  have nonneg1: "0 \<le> counter s1 ?k"
    using S(2) Cons.prems(4) by (simp split: if_splits)
  have lo1: "clock s1 + int (sum_list (map fst reqs)) \<le> H"
    using Cons.prems(2) S(4) by (simp add: q)
  have hi1: "H < clock s1 + windowSeconds options ctx"
    using Cons.prems(3) S(4) by simp
  note IH = Cons.IH [OF S(3) lo1 hi1 nonneg1 tail]
  show ?case
    using IH S(2,4,5) Cons.prems(4) nonneg1
    by (auto simp: q rs split: if_splits)
qed

lemma numbered_from_one:
  "(1 \<le> L) # map (\<lambda>i. 1 + 1 + int i \<le> L) [0..<n] = map (\<lambda>j. int j \<le> L) [1..<n + 2]"
proof -
  have a: "[1..<n + 2] = 1 # [Suc 1..<n + 2]"
    by (rule upt_conv_Cons) simp
  have b: "[Suc 1..<n + 2] = map (\<lambda>i. i + 2) [0..<n]"
    using map_add_upt [of 2 n] by (simp add: numeral_2_eq_2)
  show ?thesis
    unfolding a b by (simp add: comp_def add.commute add.left_commute del: upt_Suc)
qed

lemma decideAll_countAll_fresh:
  assumes st: "storeClient options = memStore"
    and nb: "\<not> bypass ctx" and ca: "decisionCountAll options ctx"
    and dead: "live (s\<lparr>clock := clock s + int d\<rparr>) (limitingKey sha256 ctx) = None"
    and window: "int (sum_list ds) < windowSeconds options ctx"
  shows "decideAll sha256 options ctx (d # ds) (s, log) =
           (map (\<lambda>j. int j \<le> effectiveLimit options ctx) [1..<length ds + 2],
            (\<lparr>clock = clock s + int d + int (sum_list ds),
              cells = (cells s)(limitingKey sha256 ctx \<mapsto>
                  \<lparr>val = 1 + int (length ds),
                   expireAt = Some (clock s + int d + windowSeconds options ctx)\<rparr>)\<rparr>,
             log @ [Ttl (limitingKey sha256 ctx), Incr (limitingKey sha256 ctx),
                    Expire (limitingKey sha256 ctx) (windowSeconds options ctx)]
                 @ concat (replicate (length ds)
                             [Ttl (limitingKey sha256 ctx), Incr (limitingKey sha256 ctx)])))"
proof -
  let ?k = "limitingKey sha256 ctx"
  let ?D = "windowSeconds options ctx"
  let ?L = "effectiveLimit options ctx"
  let ?s1 = "\<lparr>clock = clock s + int d,
              cells = (cells s)(?k \<mapsto> \<lparr>val = 1, expireAt = Some (clock s + int d + ?D)\<rparr>)\<rparr>"
  let ?l1 = "log @ [Ttl ?k, Incr ?k, Expire ?k ?D]"
  note first = guard_countAll_fresh [OF st nb ca dead, of log]
  have cell: "cells ?s1 ?k = Some \<lparr>val = 1, expireAt = Some (clock s + int d + ?D)\<rparr>"
    by simp
  have alive: "clock ?s1 + int (sum_list ds) < clock s + int d + ?D"
    using window by simp
  note rest = decideAll_countAll_live [OF st nb ca cell alive zero_less_one, where log = ?l1]
  have flag: "((if ?L < 1 then Inl (RateLimitException (Some (getErrorMessage options ctx)))
               else Inr True) = (Inr True :: HttpException + bool)) = (1 \<le> ?L)"
    by auto
  have cons: "decideAll sha256 options ctx (d # ds) (s, log) =
           (case decideAll sha256 options ctx ds (?s1, ?l1) of
              (rs, w'') \<Rightarrow> ((1 \<le> ?L) # rs, w''))"
    by (simp only: decideAll.simps first prod.case flag)
  show ?thesis
    unfolding cons rest prod.case numbered_from_one [symmetric]
    by (simp add: add.assoc del: upt_Suc)
qed

lemma serveAll_settled:
  assumes nb: "\<not> bypass ctx" and sca: "settlementCountAll options ctx"
  shows "serveAll sha256 options ctx reqs w = (rs, w') \<Longrightarrow>
         decideAll sha256 options ctx (map fst reqs) w = (map (\<lambda>r. \<not> isl r) rs, w')"
proof (induction reqs arbitrary: w rs)
  case Nil
  then show ?case by auto
next
  case (Cons q reqs)
  obtain d "next" where q: "q = (d, next)"
    by (cases q) auto
  obtain sa la where a: "advance d w = (sa, la)"
    by (cases "advance d w") auto
  obtain g ctx' sg lg where grun: "canActivate sha256 options ctx (sa, la) = (g, ctx', (sg, lg))"
    by (cases "canActivate sha256 options ctx (sa, la)") auto
  obtain resp where ctx': "ctx' = bind_key (limitingKey sha256 ctx) ctx resp"
    using canActivate_context [OF nb grun] by blast
  have gv: "g = Inr True \<or> (\<exists>e. g = Inl e)"
    using canActivate_verdict [OF nb grun refl] by (auto split: if_splits)
  have noop: "intercept options ctx' next (sg, lg) = (sg, lg)"
    by (simp add: intercept_eq ctx' sca split: CallHandler.splits)
  have step: "serve sha256 options ctx next (advance d w) =
                (if g = Inr True then Inr next else g', (sg, lg)) \<and> (g \<noteq> Inr True \<longrightarrow> isl g')"
    if "g' = (case g of Inl e \<Rightarrow> Inl e | Inr b \<Rightarrow> Inr next)" for g'
    using gv that by (auto simp: serve_def a grun noop)
  obtain r rs' where rs: "rs = r # rs'"
    and r: "serve sha256 options ctx next (advance d w) = (r, (sg, lg))"
    and tail: "serveAll sha256 options ctx reqs (sg, lg) = (rs', w')"
    using Cons.prems step [OF refl] by (auto simp: q split: prod.splits if_splits)
  have flag: "(\<not> isl r) = (g = Inr True)"
    using r step [OF refl] gv by (auto split: if_splits)
  show ?case
    using Cons.IH [OF tail] by (simp add: q a grun rs flag)
qed

lemma fresh_window:
  assumes "live s k = None"
  shows "within_window s k H" and "counter s k = 0"
  using assms by (auto simp: within_window_def counter_def live_def split: option.splits if_splits)


section \<open>The demonstration application, evaluated\<close>

lemmas demo_defs = appOptions_def AppController_def rate_def rateLimitAll_def ignored_def
  incoming_def outgoing_def route_def emptyStore_def digest_def

lemmas reports_defs = reports_def ReportsController_def listReports_def reportsUsed_def

lemmas eval_defs = canActivate_def Let_def truthy_boolean_def or_number_default_def
  or_boolean_def or_boolean_default_def getTracker_def generateRateLimitKey_def nullish_def
  nullish_default_def or_string_default_def call_ttl_def call_incr_def call_expire_def
  call_get_def memStore_def mem_ttl_def mem_incr_def mem_expire_def mem_get_def live_def
  setHeadersAllow_def setHeadersLimit_def getErrorMessage_def RateLimitException_def

lemma demo_keys:
  "limitingKey digest (route rate) = ''sha256:AppController-rate-203.0.113.7''"
  "limitingKey digest (route rateLimitAll) = ''sha256:AppController-rateLimitAll-203.0.113.7''"
  "limitingKey digest reports = ''sha256:ReportsController-list-203.0.113.7''"
  by (simp_all add: limitingKey_def generateRateLimitKey_def getTracker_def nullish_def
      or_string_default_def demo_defs reports_def ReportsController_def listReports_def)

lemma demo_not_bypassed:
  "\<not> bypass (route rate)" "\<not> bypass (route rateLimitAll)" "\<not> bypass reports"
  by (simp_all add: bypass_def demo_defs reports_def ReportsController_def listReports_def)

lemma demo_api:
  "has_setHeader (getResponse (route h)) \<or> has_header (getResponse (route h))"
  "has_setHeader (getResponse reports) \<or> has_header (getResponse reports)"
  by (simp_all add: demo_defs reports_def)

text \<open>
  The first request to \<open>rate\<close> of the demonstration application on an empty store,
  evaluated: the module counts all requests, so the guard increments, sets the lifetime
  and reports one request remaining of two.
\<close>

lemma demo_rate_first:
  "canActivate digest appOptions (route rate) emptyStore =
     (Inr True,
      (route rate)\<lparr>getRequest := incoming\<lparr>rateLimitTracker := Some ''sha256:AppController-rate-203.0.113.7''\<rparr>,
                   getResponse := outgoing\<lparr>sent_headers :=
                     [''X-RateLimit-Limit'' \<mapsto> NumberValue (Num 2),
                      ''X-RateLimit-Remaining'' \<mapsto> NumberValue (Num 1),
                      ''X-RateLimit-Reset'' \<mapsto> NumberValue (Num 10)]\<rparr>\<rparr>,
      (\<lparr>clock = 0, cells = [''sha256:AppController-rate-203.0.113.7'' \<mapsto> \<lparr>val = 1, expireAt = Some 10\<rparr>]\<rparr>,
       [Ttl ''sha256:AppController-rate-203.0.113.7'', Incr ''sha256:AppController-rate-203.0.113.7'',
        Expire ''sha256:AppController-rate-203.0.113.7'' 10]))"
  by (simp add: canActivate_def demo_defs Let_def truthy_boolean_def or_number_default_def
      or_boolean_def or_boolean_default_def getTracker_def generateRateLimitKey_def nullish_def
      or_string_default_def call_ttl_def call_incr_def call_expire_def memStore_def mem_ttl_def
      mem_incr_def mem_expire_def live_def setHeadersAllow_def)


text \<open>
  The eleventh request to \<open>rateLimitAll\<close> within its window, evaluated: the guard
  increments to 11, rejects with the route's own message and sets \<open>Retry-After\<close> to
  the 35 seconds that remain.
\<close>

lemma demo_rateLimitAll_eleventh:
  "canActivate digest appOptions (route rateLimitAll) usedUp =
     (Inl \<lparr>message = ''Rate Limit All'', status = 429\<rparr>,
      (route rateLimitAll)\<lparr>getRequest := incoming\<lparr>rateLimitTracker :=
                       Some ''sha256:AppController-rateLimitAll-203.0.113.7''\<rparr>,
                   getResponse := outgoing\<lparr>sent_headers :=
                     [''Retry-After'' \<mapsto> NumberValue (Num 35)]\<rparr>\<rparr>,
      (\<lparr>clock = 25,
        cells = [''sha256:AppController-rateLimitAll-203.0.113.7'' \<mapsto>
                   \<lparr>val = 11, expireAt = Some 60\<rparr>]\<rparr>,
       [Ttl ''sha256:AppController-rateLimitAll-203.0.113.7'',
        Incr ''sha256:AppController-rateLimitAll-203.0.113.7'']))"
  by (simp add: eval_defs demo_defs usedUp_def)


text \<open>
  The class-decorated controller, evaluated: a first request on an empty store is allowed
  under the class's limit of 1; a second request within the window is rejected, with the
  module's message.
\<close>

lemma demo_reports_second:
  "canActivate digest appOptions reports reportsUsed =
     (Inl \<lparr>message = ''Too Many Requests'', status = 429\<rparr>,
      reports\<lparr>getRequest := incoming\<lparr>rateLimitTracker :=
                       Some ''sha256:ReportsController-list-203.0.113.7''\<rparr>,
              getResponse := outgoing\<lparr>sent_headers :=
                     [''Retry-After'' \<mapsto> NumberValue (Num 55)]\<rparr>\<rparr>,
      (\<lparr>clock = 5,
        cells = [''sha256:ReportsController-list-203.0.113.7'' \<mapsto>
                   \<lparr>val = 2, expireAt = Some 60\<rparr>]\<rparr>,
       [Ttl ''sha256:ReportsController-list-203.0.113.7'',
        Incr ''sha256:ReportsController-list-203.0.113.7'']))"
  by (simp add: eval_defs demo_defs reports_defs)

lemma demo_reports_first:
  "canActivate digest appOptions reports emptyStore =
     (Inr True,
      reports\<lparr>getRequest := incoming\<lparr>rateLimitTracker :=
                       Some ''sha256:ReportsController-list-203.0.113.7''\<rparr>,
              getResponse := outgoing\<lparr>sent_headers :=
                     [''X-RateLimit-Limit'' \<mapsto> NumberValue (Num 1),
                      ''X-RateLimit-Remaining'' \<mapsto> NumberValue (Num 0),
                      ''X-RateLimit-Reset'' \<mapsto> NumberValue (Num 60)]\<rparr>\<rparr>,
      (\<lparr>clock = 0,
        cells = [''sha256:ReportsController-list-203.0.113.7'' \<mapsto>
                   \<lparr>val = 1, expireAt = Some 60\<rparr>]\<rparr>,
       [Ttl ''sha256:ReportsController-list-203.0.113.7'',
        Incr ''sha256:ReportsController-list-203.0.113.7'',
        Expire ''sha256:ReportsController-list-203.0.113.7'' 60]))"
  by (simp add: eval_defs demo_defs reports_defs)

text \<open>
  Worked sequences, evaluated. In success-only mode five attempts on \<open>rate\<close> (a
  handler that throws, a success, a status 500, a success, and a fifth attempt) leave the
  counter at 2 and the fifth attempt rejected. On the route that asks for success-only
  counting under a module that counts all requests, one successful request is counted by
  the guard and again by the interceptor, and of four successful attempts under a limit
  of 4 only two are let through.
\<close>

lemmas serve_defs = serve_def intercept_def handle_def truthy_string_def advance_def
  parseInt_def isWhiteSpace_def isDigit_def digit_val_def digit_char_def digits.simps
  successOnly_def quiet_def mixed_def burst_def steady_def rateUsed_def

lemma demo_successOnly_run:
  "serveAll digest successOnly (route rate) mixed emptyStore =
     ([Inr Throws, Inr (Emits 200), Inr (Emits 500), Inr (Emits 201),
       Inl \<lparr>message = ''Too Many Requests'', status = 429\<rparr>],
      (\<lparr>clock = 4,
        cells = [''sha256:AppController-rate-203.0.113.7'' \<mapsto> \<lparr>val = 2, expireAt = Some 11\<rparr>]\<rparr>,
       [Ttl ''sha256:AppController-rate-203.0.113.7'', Get ''sha256:AppController-rate-203.0.113.7'',
        Ttl ''sha256:AppController-rate-203.0.113.7'', Get ''sha256:AppController-rate-203.0.113.7'',
        Incr ''sha256:AppController-rate-203.0.113.7'', Expire ''sha256:AppController-rate-203.0.113.7'' 10,
        Ttl ''sha256:AppController-rate-203.0.113.7'', Get ''sha256:AppController-rate-203.0.113.7'',
        Ttl ''sha256:AppController-rate-203.0.113.7'', Get ''sha256:AppController-rate-203.0.113.7'',
        Incr ''sha256:AppController-rate-203.0.113.7'',
        Ttl ''sha256:AppController-rate-203.0.113.7'', Get ''sha256:AppController-rate-203.0.113.7'']))"
  by (simp add: eval_defs serve_defs demo_defs)

lemma demo_quiet_once:
  "serve digest appOptions (route quiet) (Emits 200) emptyStore =
     (Inr (Emits 200),
      (\<lparr>clock = 0,
        cells = [''sha256:AppController-quiet-203.0.113.7'' \<mapsto> \<lparr>val = 2, expireAt = Some 10\<rparr>]\<rparr>,
       [Ttl ''sha256:AppController-quiet-203.0.113.7'', Incr ''sha256:AppController-quiet-203.0.113.7'',
        Expire ''sha256:AppController-quiet-203.0.113.7'' 10,
        Incr ''sha256:AppController-quiet-203.0.113.7'']))"
  by (simp add: eval_defs serve_defs demo_defs)

lemma demo_quiet_run:
  "fst (serveAll digest appOptions (route quiet) steady emptyStore) =
     [Inr (Emits 200), Inr (Emits 200),
      Inl \<lparr>message = ''Too Many Requests'', status = 429\<rparr>,
      Inl \<lparr>message = ''Too Many Requests'', status = 429\<rparr>]"
  by (simp add: eval_defs serve_defs demo_defs)

lemma demo_rate_run:
  "serveAll digest appOptions (route rate) burst emptyStore =
     ([Inr (Emits 200), Inr Throws, Inl \<lparr>message = ''Too Many Requests'', status = 429\<rparr>],
      (\<lparr>clock = 7,
        cells = [''sha256:AppController-rate-203.0.113.7'' \<mapsto> \<lparr>val = 3, expireAt = Some 10\<rparr>]\<rparr>,
       [Ttl ''sha256:AppController-rate-203.0.113.7'', Incr ''sha256:AppController-rate-203.0.113.7'',
        Expire ''sha256:AppController-rate-203.0.113.7'' 10,
        Ttl ''sha256:AppController-rate-203.0.113.7'', Incr ''sha256:AppController-rate-203.0.113.7'',
        Ttl ''sha256:AppController-rate-203.0.113.7'', Incr ''sha256:AppController-rate-203.0.113.7'']))"
  by (simp add: eval_defs serve_defs demo_defs)


lemma demo_rate_third_quiet:
  "canActivate digest successOnly (route rate) rateUsed =
     (Inl \<lparr>message = ''Too Many Requests'', status = 429\<rparr>,
      (route rate)\<lparr>getRequest := incoming\<lparr>rateLimitTracker :=
                       Some ''sha256:AppController-rate-203.0.113.7''\<rparr>,
                   getResponse := outgoing\<lparr>sent_headers :=
                     [''Retry-After'' \<mapsto> NumberValue (Num 7)]\<rparr>\<rparr>,
      (fst rateUsed,
       [Ttl ''sha256:AppController-rate-203.0.113.7'', Get ''sha256:AppController-rate-203.0.113.7'']))"
  by (simp add: eval_defs serve_defs demo_defs)

lemma demo_modes:
  "decisionCountAll appOptions (route rate)" "settlementCountAll appOptions (route rate)"
  "\<not> decisionCountAll successOnly (route rate)" "\<not> settlementCountAll successOnly (route rate)"
  "decisionCountAll appOptions (route quiet)" "\<not> settlementCountAll appOptions (route quiet)"
  by (simp_all add: decisionCountAll_def settlementCountAll_def perRouteCountAll_def
      routeOptions_def demo_defs successOnly_def quiet_def)

lemma demo_policy:
  "effectiveLimit appOptions (route rate) = 2" "windowSeconds appOptions (route rate) = 10"
  "effectiveLimit successOnly (route rate) = 2" "windowSeconds successOnly (route rate) = 10"
  by (simp_all add: effectiveLimit_def windowSeconds_def routeOptions_def demo_defs successOnly_def)

lemma demo_stores:
  "storeClient appOptions = memStore" "storeClient successOnly = memStore"
  by (simp_all add: appOptions_def successOnly_def)

lemma demo_fresh:
  "live (\<lparr>clock = 0, cells = Map.empty\<rparr>\<lparr>clock := clock \<lparr>clock = 0, cells = Map.empty\<rparr> + int 0\<rparr>) k = None"
  "live \<lparr>clock = 0, cells = Map.empty\<rparr> k = None"
  by (simp_all add: live_def)

section \<open>The decision rule of the guard\<close>

text \<open>
  On a route that is not bypassed the guard reads \<open>ttl\<close> and then decides on a
  count. When only successes are counted, the count is the value read by \<open>get\<close>
  (0 when nothing is stored) and the guard rejects exactly when it is at least the
  effective limit; the guard's only store calls are \<open>ttl\<close> and \<open>get\<close>, and on the
  reference store the state is unchanged and the count is the counter. When all requests
  are counted, the count is the value returned by \<open>incr\<close> and the guard rejects exactly
  when it is strictly greater than the effective limit. On the reference store, when all
  requests are counted and the first of \<open>N\<close> requests finds no counter, the others
  following within less than the window, request number \<open>j\<close> is allowed exactly when
  \<open>j\<close> is at most the effective limit: in \<open>N\<close> successive runs of the guard alone,
  and in \<open>N\<close> requests served in full (guard, handler, interceptor) provided the
  interceptor resolves the counting mode to all requests as well. Without that proviso
  the statement about served requests is false: see the evaluation of the route
  \<open>quiet\<close> below.
\<close>

lemma guard_decision_rule:
  fixes options :: "mem RateLimitOptions"
  assumes nb: "\<not> bypass ctx"
    and run: "canActivate sha256 options ctx (s, log) = (r, ctx', (s', log'))"
    and s1: "s1 = snd (ttl (storeClient options) (limitingKey sha256 ctx) s)"
  shows "(\<not> decisionCountAll options ctx \<longrightarrow>
            isl r = ge_number
                      (readCount (fst (get (storeClient options) (limitingKey sha256 ctx) s1)))
                      (Num (effectiveLimit options ctx)) \<and>
            log' = log @ [Ttl (limitingKey sha256 ctx), Get (limitingKey sha256 ctx)]) \<and>
         (decisionCountAll options ctx \<longrightarrow>
            isl r = (effectiveLimit options ctx
                       < fst (incr (storeClient options) (limitingKey sha256 ctx) s1))) \<and>
         (storeClient options = memStore \<longrightarrow> \<not> decisionCountAll options ctx \<longrightarrow>
            isl r = (effectiveLimit options ctx \<le> counter s (limitingKey sha256 ctx)) \<and> s' = s) \<and>
         (\<forall>d ds. storeClient options = memStore \<longrightarrow> decisionCountAll options ctx \<longrightarrow>
            live (s\<lparr>clock := clock s + int d\<rparr>) (limitingKey sha256 ctx) = None \<longrightarrow>
            int (sum_list ds) < windowSeconds options ctx \<longrightarrow>
            fst (decideAll sha256 options ctx (d # ds) (s, log)) =
              map (\<lambda>j. int j \<le> effectiveLimit options ctx) [1..<length ds + 2]) \<and>
         (\<forall>d x reqs. storeClient options = memStore \<longrightarrow> settlementCountAll options ctx \<longrightarrow>
            live (s\<lparr>clock := clock s + int d\<rparr>) (limitingKey sha256 ctx) = None \<longrightarrow>
            int (sum_list (map fst reqs)) < windowSeconds options ctx \<longrightarrow>
            map (\<lambda>r. \<not> isl r) (fst (serveAll sha256 options ctx ((d, x) # reqs) (s, log))) =
              map (\<lambda>j. int j \<le> effectiveLimit options ctx) [1..<length reqs + 2])"
proof -
  let ?k = "limitingKey sha256 ctx"
  note verdict = canActivate_verdict [OF nb run s1]
  note world = canActivate_world [OF nb run s1]
  have a: "isl r = ge_number (readCount (fst (get (storeClient options) ?k s1)))
                      (Num (effectiveLimit options ctx)) \<and>
           log' = log @ [Ttl ?k, Get ?k]"
    if "\<not> decisionCountAll options ctx"
    using verdict world that by (auto split: if_splits)
  have b: "isl r = (effectiveLimit options ctx < fst (incr (storeClient options) ?k s1))"
    if "decisionCountAll options ctx"
    using verdict that by (auto split: if_splits)
  have c: "isl r = (effectiveLimit options ctx \<le> counter s ?k) \<and> s' = s"
    if st: "storeClient options = memStore" and so: "\<not> decisionCountAll options ctx"
  proof -
    have s1s: "s1 = s"
      using s1 by (simp add: st mem_ttl_def split: option.splits)
    obtain v s4 where g: "mem_get ?k s = (v, s4)"
      by (cases "mem_get ?k s") auto
    note rd = mem_read(2) [OF g]
    show ?thesis
      using verdict world so rd by (auto simp: st s1s g split: if_splits)
  qed
  have d: "fst (decideAll sha256 options ctx (d # ds) (s, log)) =
              map (\<lambda>j. int j \<le> effectiveLimit options ctx) [1..<length ds + 2]"
    if "storeClient options = memStore" "decisionCountAll options ctx"
       "live (s\<lparr>clock := clock s + int d\<rparr>) ?k = None"
       "int (sum_list ds) < windowSeconds options ctx" for d ds
    using decideAll_countAll_fresh [OF that(1) nb that(2,3,4), of log] by (simp only: fst_conv)
  have e: "map (\<lambda>r. \<not> isl r) (fst (serveAll sha256 options ctx ((d, x) # reqs) (s, log))) =
              map (\<lambda>j. int j \<le> effectiveLimit options ctx) [1..<length reqs + 2]"
    if st: "storeClient options = memStore" and sca: "settlementCountAll options ctx"
      and dead: "live (s\<lparr>clock := clock s + int d\<rparr>) ?k = None"
      and win: "int (sum_list (map fst reqs)) < windowSeconds options ctx" for d x reqs
  proof -
    obtain rs w' where sv: "serveAll sha256 options ctx ((d, x) # reqs) (s, log) = (rs, w')"
      by (cases "serveAll sha256 options ctx ((d, x) # reqs) (s, log)") auto
    have ed: "decideAll sha256 options ctx (d # map fst reqs) (s, log) =
            (map (\<lambda>r. \<not> isl r) rs, w')"
      using serveAll_settled [OF nb sca sv] by (simp only: list.map fst_conv)
    have fr: "fst (decideAll sha256 options ctx (d # map fst reqs) (s, log)) =
              map (\<lambda>j. int j \<le> effectiveLimit options ctx) [1..<length reqs + 2]"
      using decideAll_countAll_fresh [OF st nb settlement_implies_decision [OF sca] dead win, of log]
      by (simp only: fst_conv length_map)
    from ed fr have "map (\<lambda>r. \<not> isl r) rs =
              map (\<lambda>j. int j \<le> effectiveLimit options ctx) [1..<length reqs + 2]"
      by (simp only: fst_conv)
    then show ?thesis
      by (simp only: sv fst_conv)
  qed
  from a b c d e show ?thesis
    by blast
qed

lemma guard_decision_rule_example:
  "\<not> bypass (route rate) \<and>
   decisionCountAll appOptions (route rate) \<and> storeClient appOptions = memStore \<and>
   int (sum_list [3, 4]) < windowSeconds appOptions (route rate) \<and>
   effectiveLimit appOptions (route rate) = 2 \<and>
   fst (decideAll digest appOptions (route rate) [0, 3, 4] emptyStore) = [True, True, False] \<and>
   \<not> decisionCountAll successOnly (route rate) \<and> storeClient successOnly = memStore \<and>
   counter (fst rateUsed) (limitingKey digest (route rate)) = 2 \<and>
   isl (fst (canActivate digest successOnly (route rate) rateUsed)) \<and>
   fst (snd (snd (canActivate digest successOnly (route rate) rateUsed))) = fst rateUsed"
proof -
  note all = guard_decision_rule [OF demo_not_bypassed(1) demo_rate_first [unfolded emptyStore_def] refl]
  have win: "int (sum_list [3, 4]) < windowSeconds appOptions (route rate)"
    by (simp add: demo_policy)
  note fourth = all [THEN conjunct2, THEN conjunct2, THEN conjunct2, THEN conjunct1,
      rule_format, of 0 "[3, 4]", OF demo_stores(1) demo_modes(1) demo_fresh(1) win]
  have seq: "fst (decideAll digest appOptions (route rate) [0, 3, 4] emptyStore) =
               map (\<lambda>j. int j \<le> effectiveLimit appOptions (route rate)) [1..<length [3, 4::nat] + 2]"
    unfolding emptyStore_def by (rule fourth)
  have vals: "map (\<lambda>j. int j \<le> (2::int)) [1..<length [3, 4::nat] + 2] = [True, True, False]"
    by (simp add: upt_rec)
  note quiet = guard_decision_rule [OF demo_not_bypassed(1)
      demo_rate_third_quiet [unfolded rateUsed_def fst_conv] refl]
  have cnt: "counter (fst rateUsed) (limitingKey digest (route rate)) = 2"
    by (simp add: counter_def live_def rateUsed_def demo_keys)
  note third = quiet [THEN conjunct2, THEN conjunct2, THEN conjunct1, rule_format,
      OF demo_stores(2) demo_modes(3)]
  have so: "isl (fst (canActivate digest successOnly (route rate) rateUsed)) \<and>
            fst (snd (snd (canActivate digest successOnly (route rate) rateUsed))) = fst rateUsed"
    using third cnt by (simp add: demo_rate_third_quiet demo_policy)
  show ?thesis
    using demo_not_bypassed(1) demo_modes(1,3) demo_stores demo_policy win seq vals cnt so
    by (simp only: simp_thms)
qed

section \<open>The claims\<close>

text \<open>
  C1. The guard's decision rule is as claimed (\<open>>=\<close> on the value read when only
  successes are counted, \<open>>\<close> on the value returned by \<open>incr\<close> when all requests
  are counted), but its consequence for a sequence of requests fails in one
  configuration: the route's options say \<open>countAllRequests: false\<close> and the module's
  say \<open>true\<close>, which the guard resolves to counting all requests. Evaluated on the
  route \<open>quiet\<close> (effective limit 4, window of 10 seconds) with four successful
  requests within three seconds and no counter stored before: the guard run alone on
  the four requests allows all four, as claimed. Served in full, only requests 1 and 2
  are allowed and requests 3 and 4 are rejected with status 429, although 3 and 4 are
  at most the limit: the interceptor increments the counter once more after every
  allowed request (two \<open>incr\<close> calls for each in the trace), so that the count on
  which the guard decides the third request is 5, and the counter ends at 6 after four
  requests.
\<close>

theorem C1_count_all_run_cut_short:
  "decisionCountAll appOptions (route quiet) \<and>
   effectiveLimit appOptions (route quiet) = 4 \<and>
   windowSeconds appOptions (route quiet) = 10 \<and>
   length steady = 4 \<and>
   int (sum_list (map fst steady)) = 3 \<and>
   limitingKey digest (route quiet) = ''sha256:AppController-quiet-203.0.113.7'' \<and>
   live (fst emptyStore) ''sha256:AppController-quiet-203.0.113.7'' = None \<and>
   fst (decideAll digest appOptions (route quiet) (map fst steady) emptyStore) =
     [True, True, True, True] \<and>
   serveAll digest appOptions (route quiet) steady emptyStore =
     ([Inr (Emits 200), Inr (Emits 200),
       Inl \<lparr>message = ''Too Many Requests'', status = 429\<rparr>,
       Inl \<lparr>message = ''Too Many Requests'', status = 429\<rparr>],
      (\<lparr>clock = 3,
        cells = [''sha256:AppController-quiet-203.0.113.7'' \<mapsto> \<lparr>val = 6, expireAt = Some 10\<rparr>]\<rparr>,
       [Ttl ''sha256:AppController-quiet-203.0.113.7'', Incr ''sha256:AppController-quiet-203.0.113.7'',
        Expire ''sha256:AppController-quiet-203.0.113.7'' 10,
        Incr ''sha256:AppController-quiet-203.0.113.7'',
        Ttl ''sha256:AppController-quiet-203.0.113.7'', Incr ''sha256:AppController-quiet-203.0.113.7'',
        Incr ''sha256:AppController-quiet-203.0.113.7'',
        Ttl ''sha256:AppController-quiet-203.0.113.7'', Incr ''sha256:AppController-quiet-203.0.113.7'',
        Ttl ''sha256:AppController-quiet-203.0.113.7'', Incr ''sha256:AppController-quiet-203.0.113.7'']))"
proof -
  have policy: "effectiveLimit appOptions (route quiet) = 4"
    "windowSeconds appOptions (route quiet) = 10"
    by (simp_all add: effectiveLimit_def windowSeconds_def routeOptions_def route_def quiet_def)
  have reqs: "length steady = 4" "int (sum_list (map fst steady)) = 3"
    by (simp_all add: steady_def)
  have key: "limitingKey digest (route quiet) = ''sha256:AppController-quiet-203.0.113.7''"
    by (simp add: eval_defs serve_defs demo_defs limitingKey_def generateRateLimitKey_def
        getTracker_def)
  have none: "live (fst emptyStore) ''sha256:AppController-quiet-203.0.113.7'' = None"
    by (simp add: live_def emptyStore_def)
  have alone: "fst (decideAll digest appOptions (route quiet) (map fst steady) emptyStore) =
                 [True, True, True, True]"
    by (simp add: eval_defs serve_defs demo_defs)
  have full: "serveAll digest appOptions (route quiet) steady emptyStore =
     ([Inr (Emits 200), Inr (Emits 200),
       Inl \<lparr>message = ''Too Many Requests'', status = 429\<rparr>,
       Inl \<lparr>message = ''Too Many Requests'', status = 429\<rparr>],
      (\<lparr>clock = 3,
        cells = [''sha256:AppController-quiet-203.0.113.7'' \<mapsto> \<lparr>val = 6, expireAt = Some 10\<rparr>]\<rparr>,
       [Ttl ''sha256:AppController-quiet-203.0.113.7'', Incr ''sha256:AppController-quiet-203.0.113.7'',
        Expire ''sha256:AppController-quiet-203.0.113.7'' 10,
        Incr ''sha256:AppController-quiet-203.0.113.7'',
        Ttl ''sha256:AppController-quiet-203.0.113.7'', Incr ''sha256:AppController-quiet-203.0.113.7'',
        Incr ''sha256:AppController-quiet-203.0.113.7'',
        Ttl ''sha256:AppController-quiet-203.0.113.7'', Incr ''sha256:AppController-quiet-203.0.113.7'',
        Ttl ''sha256:AppController-quiet-203.0.113.7'', Incr ''sha256:AppController-quiet-203.0.113.7'']))"
    by (simp add: eval_defs serve_defs demo_defs)
  show ?thesis
    using demo_modes(5) policy reqs key none alone full by (simp only: simp_thms)
qed

text \<open>
  C2. The claim that the guard and the interceptor resolve the same counting mode fails
  in one configuration: the route's options say \<open>countAllRequests: false\<close> and the
  module's say \<open>true\<close>. The guard combines them with \<open>||\<close> and counts the
  request; the interceptor combines them with \<open>??\<close> and counts it again when it
  succeeds. Evaluated on the route \<open>quiet\<close>: one successful request leaves the counter
  at 2, with an increment by each stage in the trace, and of four successful requests
  under an effective limit of 4 the third and fourth are rejected.
\<close>

theorem C2_explicit_false_counted_twice:
  "Option.bind (RATE_LIMIT_OPTIONS (getHandler (route quiet))) countAllRequests = Some False \<and>
   countAllRequests appOptions = Some True \<and>
   or_boolean_default (or_boolean (Some False) (Some True)) False = True \<and>
   nullish_default (nullish (Some False) (Some True)) False = False \<and>
   decisionCountAll appOptions (route quiet) \<and> \<not> settlementCountAll appOptions (route quiet) \<and>
   serve digest appOptions (route quiet) (Emits 200) emptyStore =
     (Inr (Emits 200),
      (\<lparr>clock = 0,
        cells = [''sha256:AppController-quiet-203.0.113.7'' \<mapsto> \<lparr>val = 2, expireAt = Some 10\<rparr>]\<rparr>,
       [Ttl ''sha256:AppController-quiet-203.0.113.7'', Incr ''sha256:AppController-quiet-203.0.113.7'',
        Expire ''sha256:AppController-quiet-203.0.113.7'' 10,
        Incr ''sha256:AppController-quiet-203.0.113.7''])) \<and>
   effectiveLimit appOptions (route quiet) = 4 \<and>
   fst (serveAll digest appOptions (route quiet) steady emptyStore) =
     [Inr (Emits 200), Inr (Emits 200),
      Inl \<lparr>message = ''Too Many Requests'', status = 429\<rparr>,
      Inl \<lparr>message = ''Too Many Requests'', status = 429\<rparr>]"
proof -
  have "Option.bind (RATE_LIMIT_OPTIONS (getHandler (route quiet))) countAllRequests = Some False"
    by (simp add: route_def quiet_def)
  moreover have "countAllRequests appOptions = Some True"
    by (simp add: appOptions_def)
  moreover have "or_boolean_default (or_boolean (Some False) (Some True)) False = True"
    by (simp add: or_boolean_default_def or_boolean_def truthy_boolean_def)
  moreover have "nullish_default (nullish (Some False) (Some True)) False = False"
    by (simp add: nullish_default_def nullish_def)
  moreover have "effectiveLimit appOptions (route quiet) = 4"
    by (simp add: effectiveLimit_def routeOptions_def route_def quiet_def)
  ultimately show ?thesis
    using demo_modes(5,6) demo_quiet_once demo_quiet_run by simp
qed

text \<open>
  C3. Let the interceptor resolve the counting mode to successes only. Its callback
  increments the counter exactly when a non-empty key is bound to the request and the
  handler returned with a status below 400: then it calls \<open>incr\<close> on that key (and
  \<open>expire\<close> when the answer is 1); with no key, with a handler that throws, or with a
  status of 400 or more, it leaves the store and the trace untouched. Consequently, on
  the reference store, when a sequence of requests that starts with no counter and lasts
  less than the window is served in success-only mode, the counter at the end equals the
  number of requests whose handler ran and succeeded - not the number of attempts.
\<close>

theorem C3_settlement_counts_successes:
  fixes options :: "mem RateLimitOptions"
  assumes so: "\<not> settlementCountAll options ctx"
  shows "(\<forall>k. rateLimitTracker (getRequest ctx) = Some k \<longrightarrow> k \<noteq> [] \<longrightarrow>
              successful (Inr next) \<longrightarrow>
              intercept options ctx next (s, log) =
                (if fst (incr (storeClient options) k s) = 1
                 then (expire (storeClient options) k (windowSeconds options ctx)
                         (snd (incr (storeClient options) k s)),
                       log @ [Incr k, Expire k (windowSeconds options ctx)])
                 else (snd (incr (storeClient options) k s), log @ [Incr k]))) \<and>
         (\<not> truthy_string (rateLimitTracker (getRequest ctx)) \<or> \<not> successful (Inr next) \<longrightarrow>
              intercept options ctx next (s, log) = (s, log)) \<and>
         (\<forall>reqs. storeClient options = memStore \<longrightarrow> \<not> bypass ctx \<longrightarrow>
              \<not> decisionCountAll options ctx \<longrightarrow> limitingKey sha256 ctx \<noteq> [] \<longrightarrow>
              live s (limitingKey sha256 ctx) = None \<longrightarrow>
              int (sum_list (map fst reqs)) < windowSeconds options ctx \<longrightarrow>
              counter (fst (snd (serveAll sha256 options ctx reqs (s, log)))) (limitingKey sha256 ctx) =
                int (length (filter successful (fst (serveAll sha256 options ctx reqs (s, log))))))"
proof -
  let ?k = "limitingKey sha256 ctx"
  have a: "intercept options ctx next (s, log) =
                (if fst (incr (storeClient options) k s) = 1
                 then (expire (storeClient options) k (windowSeconds options ctx)
                         (snd (incr (storeClient options) k s)),
                       log @ [Incr k, Expire k (windowSeconds options ctx)])
                 else (snd (incr (storeClient options) k s), log @ [Incr k]))"
    if "rateLimitTracker (getRequest ctx) = Some k" "k \<noteq> []" "successful (Inr next)" for k
    using that so
    by (cases "next"; cases "incr (storeClient options) k s") (auto simp: intercept_eq)
  have b: "intercept options ctx next (s, log) = (s, log)"
    if "\<not> truthy_string (rateLimitTracker (getRequest ctx)) \<or> \<not> successful (Inr next)"
    using that
    by (cases "next") (auto simp: intercept_eq truthy_string_def split: option.splits)
  have c: "counter (fst (snd (serveAll sha256 options ctx reqs (s, log)))) ?k =
             int (length (filter successful (fst (serveAll sha256 options ctx reqs (s, log)))))"
    if st: "storeClient options = memStore" and nb: "\<not> bypass ctx"
      and kne: "?k \<noteq> []" and dead: "live s ?k = None"
      and win: "int (sum_list (map fst reqs)) < windowSeconds options ctx"
      and dso: "\<not> decisionCountAll options ctx" for reqs
  proof -
    obtain rs s' log' where sv: "serveAll sha256 options ctx reqs (s, log) = (rs, (s', log'))"
      by (cases "serveAll sha256 options ctx reqs (s, log)") auto
    have hi: "clock s + int (sum_list (map fst reqs)) < clock s + windowSeconds options ctx"
      using win by simp
    have nonneg: "0 \<le> counter s ?k"
      by (simp add: fresh_window(2) [OF dead])
    note A = serveAll_mem [OF st nb kne fresh_window(1) [OF dead] order_refl hi nonneg sv]
    show ?thesis
      using A so dso by (simp add: sv fresh_window(2) [OF dead])
  qed
  from a b c show ?thesis
    by blast
qed

theorem C3_settlement_counts_successes_witness:
  "\<not> settlementCountAll successOnly (route rate) \<and> storeClient successOnly = memStore \<and>
   \<not> bypass (route rate) \<and> \<not> decisionCountAll successOnly (route rate) \<and>
   limitingKey digest (route rate) \<noteq> [] \<and>
   live (fst emptyStore) (limitingKey digest (route rate)) = None \<and>
   int (sum_list (map fst mixed)) < windowSeconds successOnly (route rate) \<and>
   length mixed = 5 \<and>
   length (filter successful (fst (serveAll digest successOnly (route rate) mixed emptyStore))) = 2 \<and>
   counter (fst (snd (serveAll digest successOnly (route rate) mixed emptyStore)))
     (limitingKey digest (route rate)) = 2 \<and>
   \<not> successful (Inr (Emits 500)) \<and>
   intercept successOnly (route rate) (Emits 500) emptyStore = emptyStore"
proof -
  note all = C3_settlement_counts_successes [OF demo_modes(4),
      of "Emits 500" "fst emptyStore" "snd emptyStore" digest]
  have kne: "limitingKey digest (route rate) \<noteq> []"
    by (simp add: demo_keys)
  have dead: "live (fst emptyStore) (limitingKey digest (route rate)) = None"
    by (simp add: emptyStore_def live_def)
  have win: "int (sum_list (map fst mixed)) < windowSeconds successOnly (route rate)"
    by (simp add: mixed_def demo_policy)
  note third = all [THEN conjunct2, THEN conjunct2, rule_format,
      OF demo_stores(2) demo_not_bypassed(1) demo_modes(3) kne dead win]
  have cnt: "counter (fst (snd (serveAll digest successOnly (route rate) mixed emptyStore)))
               (limitingKey digest (route rate)) =
             int (length (filter successful
                    (fst (serveAll digest successOnly (route rate) mixed emptyStore))))"
    using third by simp
  have two: "length (filter successful
                (fst (serveAll digest successOnly (route rate) mixed emptyStore))) = 2"
    by (simp add: demo_successOnly_run)
  have nok: "\<not> successful (Inr (Emits 500))"
    by simp
  have failed: "intercept successOnly (route rate) (Emits 500) emptyStore = emptyStore"
    using all [THEN conjunct2, THEN conjunct1, rule_format, OF disjI2, OF nok] by simp
  have len: "length mixed = 5"
    by (simp add: mixed_def)
  have fin: "counter (fst (snd (serveAll digest successOnly (route rate) mixed emptyStore)))
               (limitingKey digest (route rate)) = 2"
    using cnt two by simp
  show ?thesis
    using demo_modes(3,4) demo_stores(2) demo_not_bypassed(1) kne dead win len two fin nok failed
    by (simp only: simp_thms)
qed

text \<open>
  C4. In the guard, when all requests are counted, the store calls are \<open>ttl\<close>,
  \<open>incr\<close> and, exactly when \<open>incr\<close> answered 1, \<open>expire\<close> on the same key with
  the effective window, right after the increment. In the interceptor, when it counts the
  request, the calls are \<open>incr\<close> and, exactly when it answered 1, \<open>expire\<close> with
  the effective window. Consequently, on the reference store, a sequence of requests that
  starts with no counter and lasts less than the window sets the lifetime once if
  anything was counted and never otherwise, whatever the counting mode; in particular
  exactly once when all requests are counted and there is at least one request.
\<close>

theorem C4_expire_on_first_increment:
  fixes options :: "mem RateLimitOptions"
  assumes nb: "\<not> bypass ctx"
    and run: "canActivate sha256 options ctx (s, log) = (r, ctx', (s', log'))"
    and s1: "s1 = snd (ttl (storeClient options) (limitingKey sha256 ctx) s)"
  shows "(decisionCountAll options ctx \<longrightarrow>
            (s', log') =
              (if fst (incr (storeClient options) (limitingKey sha256 ctx) s1) = 1
               then (expire (storeClient options) (limitingKey sha256 ctx)
                       (windowSeconds options ctx)
                       (snd (incr (storeClient options) (limitingKey sha256 ctx) s1)),
                     log @ [Ttl (limitingKey sha256 ctx), Incr (limitingKey sha256 ctx),
                            Expire (limitingKey sha256 ctx) (windowSeconds options ctx)])
               else (snd (incr (storeClient options) (limitingKey sha256 ctx) s1),
                     log @ [Ttl (limitingKey sha256 ctx), Incr (limitingKey sha256 ctx)]))) \<and>
         (\<forall>next. \<not> settlementCountAll options ctx \<longrightarrow> successful (Inr next) \<longrightarrow>
            limitingKey sha256 ctx \<noteq> [] \<longrightarrow>
            intercept options ctx' next (s', log') =
              (if fst (incr (storeClient options) (limitingKey sha256 ctx) s') = 1
               then (expire (storeClient options) (limitingKey sha256 ctx)
                       (windowSeconds options ctx)
                       (snd (incr (storeClient options) (limitingKey sha256 ctx) s')),
                     log' @ [Incr (limitingKey sha256 ctx),
                             Expire (limitingKey sha256 ctx) (windowSeconds options ctx)])
               else (snd (incr (storeClient options) (limitingKey sha256 ctx) s'),
                     log' @ [Incr (limitingKey sha256 ctx)]))) \<and>
         (\<forall>reqs. storeClient options = memStore \<longrightarrow> limitingKey sha256 ctx \<noteq> [] \<longrightarrow>
            live s (limitingKey sha256 ctx) = None \<longrightarrow>
            int (sum_list (map fst reqs)) < windowSeconds options ctx \<longrightarrow>
            expires (snd (snd (serveAll sha256 options ctx reqs (s, log)))) =
              expires log +
              (if counter (fst (snd (serveAll sha256 options ctx reqs (s, log))))
                    (limitingKey sha256 ctx) = 0
               then 0 else 1) \<and>
            (decisionCountAll options ctx \<longrightarrow> reqs \<noteq> [] \<longrightarrow>
               expires (snd (snd (serveAll sha256 options ctx reqs (s, log)))) = expires log + 1))"
proof -
  let ?k = "limitingKey sha256 ctx"
  let ?D = "windowSeconds options ctx"
  have a: "(s', log') =
              (if fst (incr (storeClient options) ?k s1) = 1
               then (expire (storeClient options) ?k ?D (snd (incr (storeClient options) ?k s1)),
                     log @ [Ttl ?k, Incr ?k, Expire ?k ?D])
               else (snd (incr (storeClient options) ?k s1), log @ [Ttl ?k, Incr ?k]))"
    if "decisionCountAll options ctx"
    using canActivate_world [OF nb run s1] that by simp
  obtain resp where ctx': "ctx' = bind_key ?k ctx resp"
    using canActivate_context [OF nb run] by blast
  have b: "intercept options ctx' next (s', log') =
              (if fst (incr (storeClient options) ?k s') = 1
               then (expire (storeClient options) ?k ?D (snd (incr (storeClient options) ?k s')),
                     log' @ [Incr ?k, Expire ?k ?D])
               else (snd (incr (storeClient options) ?k s'), log' @ [Incr ?k]))"
    if "\<not> settlementCountAll options ctx" "successful (Inr next)" "?k \<noteq> []" for "next"
    using that
    by (cases "next"; cases "incr (storeClient options) ?k s'") (auto simp: intercept_eq ctx')
  have c: "expires (snd (snd (serveAll sha256 options ctx reqs (s, log)))) =
              expires log +
              (if counter (fst (snd (serveAll sha256 options ctx reqs (s, log)))) ?k = 0
               then 0 else 1) \<and>
            (decisionCountAll options ctx \<longrightarrow> reqs \<noteq> [] \<longrightarrow>
               expires (snd (snd (serveAll sha256 options ctx reqs (s, log)))) = expires log + 1)"
    if st: "storeClient options = memStore" and kne: "?k \<noteq> []" and dead: "live s ?k = None"
      and win: "int (sum_list (map fst reqs)) < ?D" for reqs
  proof -
    obtain rs sf lf where sv: "serveAll sha256 options ctx reqs (s, log) = (rs, (sf, lf))"
      by (cases "serveAll sha256 options ctx reqs (s, log)") auto
    have hi: "clock s + int (sum_list (map fst reqs)) < clock s + ?D"
      using win by simp
    have nonneg: "0 \<le> counter s ?k"
      by (simp add: fresh_window(2) [OF dead])
    note A = serveAll_mem [OF st nb kne fresh_window(1) [OF dead] order_refl hi nonneg sv]
    have "reqs \<noteq> [] \<Longrightarrow> int (length reqs) + int (length (filter successful rs)) \<noteq> 0"
      by (cases reqs) (simp_all add: add_nonneg_eq_0_iff)
    then show ?thesis
      using A by (auto simp: sv fresh_window(2) [OF dead] split: if_splits)
  qed
  from a b c show ?thesis
    by blast
qed

theorem C4_expire_on_first_increment_witness:
  "\<not> bypass (route rate) \<and> decisionCountAll appOptions (route rate) \<and>
   fst (incr (storeClient appOptions) (limitingKey digest (route rate)) (fst emptyStore)) = 1 \<and>
   snd (snd (snd (canActivate digest appOptions (route rate) emptyStore))) =
     [Ttl (limitingKey digest (route rate)), Incr (limitingKey digest (route rate)),
      Expire (limitingKey digest (route rate)) 10] \<and>
   storeClient appOptions = memStore \<and> limitingKey digest (route rate) \<noteq> [] \<and>
   live (fst emptyStore) (limitingKey digest (route rate)) = None \<and>
   int (sum_list (map fst burst)) < windowSeconds appOptions (route rate) \<and>
   burst \<noteq> [] \<and>
   expires (snd (snd (serveAll digest appOptions (route rate) burst emptyStore))) = 1"
proof -
  note all = C4_expire_on_first_increment [OF demo_not_bypassed(1)
      demo_rate_first [unfolded emptyStore_def] refl]
  have kne: "limitingKey digest (route rate) \<noteq> []"
    by (simp add: demo_keys)
  have dead: "live (fst emptyStore) (limitingKey digest (route rate)) = None"
    by (simp add: emptyStore_def live_def)
  have win: "int (sum_list (map fst burst)) < windowSeconds appOptions (route rate)"
    by (simp add: burst_def demo_policy)
  have ne: "burst \<noteq> []"
    by (simp add: burst_def)
  have one: "fst (incr (storeClient appOptions) (limitingKey digest (route rate)) (fst emptyStore)) = 1"
    by (simp add: demo_stores emptyStore_def mem_incr_def live_def)
  note third = all [THEN conjunct2, THEN conjunct2, rule_format, THEN conjunct2, rule_format,
      OF demo_stores(1) kne dead [unfolded emptyStore_def fst_conv] win demo_modes(1) ne]
  have once: "expires (snd (snd (serveAll digest appOptions (route rate) burst emptyStore))) = 1"
    using third by (simp add: emptyStore_def)
  note first = all [THEN conjunct1, rule_format, OF demo_modes(1)]
  have trace: "snd (snd (snd (canActivate digest appOptions (route rate) emptyStore))) =
     [Ttl (limitingKey digest (route rate)), Incr (limitingKey digest (route rate)),
      Expire (limitingKey digest (route rate)) 10]"
    using first
    by (simp add: demo_rate_first demo_keys demo_policy demo_stores mem_ttl_def mem_incr_def
        live_def)
  show ?thesis
    using demo_not_bypassed(1) demo_modes(1) demo_stores(1) kne dead win ne one once trace
    by (simp only: simp_thms)
qed

text \<open>
  C5. Let a request on a route that is not bypassed be allowed, its response offering
  \<open>setHeader\<close> or \<open>header\<close> (as the responses of Express and Fastify do). The
  guard reads \<open>ttl\<close> first, before the count step, and the count step runs on the
  store as \<open>ttl\<close> left it. The guard then leaves the response as it was except for
  three attributes: the limit is the effective limit; the remaining count is the effective
  limit minus the count, replaced by zero when negative (and \<open>NaN\<close> when the stored
  string is not a number); the reset time is the \<open>ttl\<close> answer, replaced by the
  effective window when that answer is negative. The count is the value returned by
  \<open>incr\<close> when all requests are counted, and the value read by \<open>get\<close> otherwise.
\<close>

theorem C5_allow_attributes:
  assumes nb: "\<not> bypass ctx"
    and api: "has_setHeader (getResponse ctx) \<or> has_header (getResponse ctx)"
    and t: "ttl (storeClient options) (limitingKey sha256 ctx) s = (t, s1)"
    and run: "canActivate sha256 options ctx (s, log) = (Inr ok, ctx', (s', log'))"
    and count: "count = (if decisionCountAll options ctx
                         then Num (fst (incr (storeClient options) (limitingKey sha256 ctx) s1))
                         else readCount (fst (get (storeClient options) (limitingKey sha256 ctx) s1)))"
  shows "getResponse ctx' =
           (getResponse ctx)\<lparr>sent_headers := (sent_headers (getResponse ctx))
              (''X-RateLimit-Limit'' \<mapsto>
                 attribute (getResponse ctx) (Num (effectiveLimit options ctx)),
               ''X-RateLimit-Remaining'' \<mapsto>
                 attribute (getResponse ctx)
                   (case count of
                      Num c \<Rightarrow> Num (max 0 (effectiveLimit options ctx - c))
                    | NaN \<Rightarrow> NaN),
               ''X-RateLimit-Reset'' \<mapsto>
                 attribute (getResponse ctx)
                   (Num (if t < 0 then windowSeconds options ctx else t)))\<rparr> \<and>
         (\<exists>later. log' = log @ Ttl (limitingKey sha256 ctx) # later)"
  using allowed_response [OF nb api t run count] by blast

theorem C5_allow_attributes_witness:
  "\<not> bypass (route rate) \<and>
   (has_setHeader (getResponse (route rate)) \<or> has_header (getResponse (route rate))) \<and>
   ttl (storeClient appOptions) (limitingKey digest (route rate)) (fst emptyStore) = (- 2, fst emptyStore) \<and>
   fst (canActivate digest appOptions (route rate) emptyStore) = Inr True \<and>
   sent_headers (getResponse (fst (snd (canActivate digest appOptions (route rate) emptyStore)))) =
     [''X-RateLimit-Limit'' \<mapsto> NumberValue (Num 2),
      ''X-RateLimit-Remaining'' \<mapsto> NumberValue (Num 1),
      ''X-RateLimit-Reset'' \<mapsto> NumberValue (Num 10)]"
proof -
  have t: "ttl (storeClient appOptions) (limitingKey digest (route rate)) (fst emptyStore)
             = (- 2, fst emptyStore)"
    by (simp add: demo_keys emptyStore_def appOptions_def memStore_def mem_ttl_def live_def)
  have run: "canActivate digest appOptions (route rate) (fst emptyStore, []) =
     (Inr True,
      fst (snd (canActivate digest appOptions (route rate) emptyStore)),
      (fst (snd (snd (canActivate digest appOptions (route rate) emptyStore))),
       snd (snd (snd (canActivate digest appOptions (route rate) emptyStore)))))"
    by (simp add: demo_rate_first) (simp add: emptyStore_def demo_rate_first [unfolded emptyStore_def])
  have mode: "decisionCountAll appOptions (route rate)"
    by (simp add: decisionCountAll_def perRouteCountAll_def routeOptions_def demo_defs)
  have count: "Num 1 = (if decisionCountAll appOptions (route rate)
       then Num (fst (incr (storeClient appOptions) (limitingKey digest (route rate)) (fst emptyStore)))
       else readCount (fst (get (storeClient appOptions) (limitingKey digest (route rate)) (fst emptyStore))))"
    by (simp only: mode if_True)
       (simp add: demo_keys emptyStore_def appOptions_def memStore_def mem_incr_def live_def)
  show ?thesis
    using C5_allow_attributes [OF demo_not_bypassed(1) demo_api(1) t run count]
      demo_not_bypassed(1) demo_api(1) [of rate] t
    by (simp add: demo_rate_first) (simp add: demo_defs)
qed

text \<open>
  C6. Let the guard reject a request on a route that is not bypassed, its response
  offering \<open>setHeader\<close> or \<open>header\<close>. The guard leaves the response as it was
  except for \<open>Retry-After\<close>, which is the \<open>ttl\<close> answer, replaced by the
  effective window when that answer is negative; the limit, remaining and reset
  attributes are as they were. The exception has status 429 and carries the
  \<open>errorMessage\<close> of the handler's own \<open>@RateLimit\<close> options when there is
  one, otherwise the module's \<open>errorMessage\<close>, otherwise \<open>Too Many Requests\<close>.
\<close>

theorem C6_reject_path:
  assumes nb: "\<not> bypass ctx"
    and api: "has_setHeader (getResponse ctx) \<or> has_header (getResponse ctx)"
    and t: "ttl (storeClient options) (limitingKey sha256 ctx) s = (t, s1)"
    and run: "canActivate sha256 options ctx (s, log) = (Inl e, ctx', w')"
  shows "getResponse ctx' =
           (getResponse ctx)\<lparr>sent_headers := (sent_headers (getResponse ctx))
              (''Retry-After'' \<mapsto>
                 attribute (getResponse ctx)
                   (Num (if t < 0 then windowSeconds options ctx else t)))\<rparr> \<and>
         e = \<lparr>message =
                (case Option.bind (RATE_LIMIT_OPTIONS (getHandler ctx)) errorMessage of
                   Some m \<Rightarrow> m
                 | None \<Rightarrow> (case errorMessage options of
                              Some m \<Rightarrow> m
                            | None \<Rightarrow> ''Too Many Requests'')),
              status = 429\<rparr> \<and>
         (\<forall>h \<in> {''X-RateLimit-Limit'', ''X-RateLimit-Remaining'', ''X-RateLimit-Reset''}.
            sent_headers (getResponse ctx') h = sent_headers (getResponse ctx) h)"
proof -
  note resp = rejected_response(1) [OF nb api t run]
  note exc = rejected_response(2) [OF nb api t run]
  have others: "\<forall>h \<in> {''X-RateLimit-Limit'', ''X-RateLimit-Remaining'', ''X-RateLimit-Reset''}.
            sent_headers (getResponse ctx') h = sent_headers (getResponse ctx) h"
    by (simp add: resp)
  from resp exc others show ?thesis by blast
qed

theorem C6_reject_path_witness:
  "\<not> bypass (route rateLimitAll) \<and>
   (has_setHeader (getResponse (route rateLimitAll)) \<or> has_header (getResponse (route rateLimitAll))) \<and>
   ttl (storeClient appOptions) (limitingKey digest (route rateLimitAll)) (fst usedUp) = (35, fst usedUp) \<and>
   fst (canActivate digest appOptions (route rateLimitAll) usedUp) =
     Inl \<lparr>message = ''Rate Limit All'', status = 429\<rparr> \<and>
   sent_headers (getResponse (fst (snd (canActivate digest appOptions (route rateLimitAll) usedUp)))) =
     [''Retry-After'' \<mapsto> NumberValue (Num 35)]"
proof -
  have t: "ttl (storeClient appOptions) (limitingKey digest (route rateLimitAll)) (fst usedUp)
             = (35, fst usedUp)"
    by (simp add: demo_keys usedUp_def appOptions_def memStore_def mem_ttl_def live_def)
  have run: "canActivate digest appOptions (route rateLimitAll) (fst usedUp, []) =
     (Inl \<lparr>message = ''Rate Limit All'', status = 429\<rparr>,
      fst (snd (canActivate digest appOptions (route rateLimitAll) usedUp)),
      snd (snd (canActivate digest appOptions (route rateLimitAll) usedUp)))"
    by (simp add: demo_rateLimitAll_eleventh) (simp add: usedUp_def demo_rateLimitAll_eleventh [unfolded usedUp_def])
  show ?thesis
    using C6_reject_path [OF demo_not_bypassed(2) demo_api(1) t run] demo_not_bypassed(2)
      demo_api(1) [of rateLimitAll] t
    by (simp add: demo_rateLimitAll_eleventh) (simp add: demo_defs attribute_def)
qed

text \<open>
  C7. On a route marked to bypass rate limiting the guard allows the request and leaves
  the request, the response, the store and the trace of store calls as they were: it
  calls none of \<open>ttl\<close>, \<open>get\<close>, \<open>incr\<close>, \<open>expire\<close>. No key is bound to
  the request, so for a request that arrives without one the whole path (guard, handler,
  interceptor) leaves the store and the trace unchanged as well, whatever the options,
  the store and the handler's outcome are.
\<close>

theorem C7_bypass_touches_no_store:
  assumes "bypass ctx"
  shows "canActivate sha256 options ctx w = (Inr True, ctx, w) \<and>
         (rateLimitTracker (getRequest ctx) = None \<longrightarrow>
            serve sha256 options ctx next w = (Inr next, w))"
proof -
  have g: "canActivate sha256 options ctx w = (Inr True, ctx, w)"
    using assms by (rule canActivate_bypass)
  have "serve sha256 options ctx next w = (Inr next, w)"
    if "rateLimitTracker (getRequest ctx) = None"
    using that
    by (cases w) (simp add: serve_def canActivate_bypass [OF assms] intercept_eq
        split: CallHandler.splits)
  with g show ?thesis by blast
qed

theorem C7_bypass_witness:
  "bypass (route ignored) \<and> rateLimitTracker (getRequest (route ignored)) = None \<and>
   canActivate digest appOptions (route ignored) emptyStore = (Inr True, route ignored, emptyStore) \<and>
   serve digest appOptions (route ignored) (Emits 200) emptyStore = (Inr (Emits 200), emptyStore)"
proof -
  have b: "bypass (route ignored)"
    by (simp add: bypass_def route_def ignored_def)
  have f: "rateLimitTracker (getRequest (route ignored)) = None"
    by (simp add: route_def incoming_def)
  show ?thesis
    using C7_bypass_touches_no_store [OF b, of digest appOptions emptyStore "Emits 200"] b f
    by simp
qed

text \<open>
  C8. On every route that is not bypassed the guard binds to the request, as its Limiting
  Key, the digest of the controller's class name, the handler's name and the tracker,
  joined by \<open>-\<close>; every store call the guard makes is on that key; and the key is a
  function of these three strings alone: a request context with the same class name,
  handler name and tracker derives the same key.
\<close>

theorem C8_limiting_key:
  assumes nb: "\<not> bypass ctx"
    and run: "canActivate sha256 options ctx (s, log) = (r, ctx', (s', log'))"
  shows "rateLimitTracker (getRequest ctx') =
           Some (sha256 (name (getClass ctx) @ ''-'' @ name (getHandler ctx) @ ''-'' @
                         getTracker (getRequest ctx))) \<and>
         (\<exists>made. log' = log @ made \<and>
            (\<forall>c \<in> set made. Some (call_key c) = rateLimitTracker (getRequest ctx'))) \<and>
         (\<forall>other. name (getClass other) = name (getClass ctx) \<longrightarrow>
                  name (getHandler other) = name (getHandler ctx) \<longrightarrow>
                  getTracker (getRequest other) = getTracker (getRequest ctx) \<longrightarrow>
                  generateRateLimitKey sha256 other (getTracker (getRequest other)) =
                  generateRateLimitKey sha256 ctx (getTracker (getRequest ctx)))"
proof -
  have key: "limitingKey sha256 ctx =
               sha256 (name (getClass ctx) @ ''-'' @ name (getHandler ctx) @ ''-'' @
                       getTracker (getRequest ctx))"
    by (simp add: limitingKey_def generateRateLimitKey_def)
  have bound: "rateLimitTracker (getRequest ctx') = Some (limitingKey sha256 ctx)"
    using canActivate_limited(1) [OF nb run] by simp
  have calls: "\<exists>made. log' = log @ made \<and>
            (\<forall>c \<in> set made. Some (call_key c) = rateLimitTracker (getRequest ctx'))"
    using canActivate_limited(2) [OF nb run] bound by auto
  have same: "generateRateLimitKey sha256 other (getTracker (getRequest other)) =
              generateRateLimitKey sha256 ctx (getTracker (getRequest ctx))"
    if "name (getClass other) = name (getClass ctx)"
      and "name (getHandler other) = name (getHandler ctx)"
      and "getTracker (getRequest other) = getTracker (getRequest ctx)" for other
    using that by (simp add: generateRateLimitKey_def)
  from bound calls same show ?thesis
    unfolding key by blast
qed

theorem C8_limiting_key_witness:
  "\<not> bypass (route rate) \<and>
   rateLimitTracker (getRequest (fst (snd (canActivate digest appOptions (route rate) emptyStore)))) =
     Some (digest ''AppController-rate-203.0.113.7'')"
proof -
  have nb: "\<not> bypass (route rate)"
    by (simp add: bypass_def demo_defs)
  show ?thesis
    using C8_limiting_key [OF nb demo_rate_first [unfolded emptyStore_def]] nb
    by (simp only: demo_rate_first)
       (simp add: demo_defs getTracker_def or_string_default_def nullish_def)
qed

text \<open>
  C9, as amended. The default tracker is the resolved client IP when that is present and
  not empty; when the client IP is absent it is the forwarded-for header value, if that is
  present and not empty; in every other case it is the literal \<open>unknown\<close>. A client
  IP that is present but empty therefore yields \<open>unknown\<close> and the header is not
  consulted. Whenever the client IP is not the empty string, this is the first non-empty
  of client IP, header value and \<open>unknown\<close>, as the specification words it.
\<close>

theorem C9_default_tracker:
  "getTracker request =
     (case ip request of
        Some a \<Rightarrow> if a = [] then ''unknown'' else a
      | None \<Rightarrow> (case forwardedFor request of
                   Some x \<Rightarrow> if x = [] then ''unknown'' else x
                 | None \<Rightarrow> ''unknown'')) \<and>
   (ip request \<noteq> Some [] \<longrightarrow>
      getTracker request =
        spec_firstAvailable nonEmpty [ip request, forwardedFor request] ''unknown'')"
  by (simp add: getTracker_def forwardedFor_def or_string_default_def nullish_def nonEmpty_def
      split: option.splits)

theorem C9_default_tracker_witness:
  "ip proxied \<noteq> Some [] \<and> getTracker proxied = ''198.51.100.4'' \<and>
   getTracker proxied = spec_firstAvailable nonEmpty [ip proxied, forwardedFor proxied] ''unknown''"
  using C9_default_tracker [of proxied]
  by (simp add: proxied_def forwardedFor_def nonEmpty_def)

text \<open>
  C9 as stated fails for a request whose client IP is the empty string and whose
  forwarded-for header is set: the first non-empty candidate is the header value and the
  first present candidate is the (empty) client IP, yet the tracker is \<open>unknown\<close>.
\<close>

theorem C9_blank_ip_counterexample:
  "getTracker blankIp = ''unknown'' \<and>
   spec_firstAvailable nonEmpty [ip blankIp, forwardedFor blankIp] ''unknown'' = ''198.51.100.4'' \<and>
   spec_firstAvailable present [ip blankIp, forwardedFor blankIp] ''unknown'' = []"
  by (simp add: getTracker_def blankIp_def forwardedFor_def or_string_default_def nullish_def
      nonEmpty_def present_def)

text \<open>
  C10. The message of the exception is resolved from the handler's own metadata only:
  a rejected request gets the \<open>errorMessage\<close> of the handler's \<open>@RateLimit\<close>
  options when the handler carries one, whatever the controller class is decorated with;
  when the handler carries none (no \<open>@RateLimit\<close> at all, or one without a message)
  it gets the module's \<open>errorMessage\<close>, or \<open>Too Many Requests\<close> when the module
  sets none - also when the controller class is decorated with a message of its own.
  Limit, duration and counting mode, by contrast, are taken from the class-level options
  when the handler has none (seen in the limit and reset attributes of an allowed
  response and in the guard incrementing right after \<open>ttl\<close>), and from the handler's
  options when it has some, whatever the class carries.
\<close>

theorem C10_message_from_handler_only:
  assumes nb: "\<not> bypass ctx"
    and api: "has_setHeader (getResponse ctx) \<or> has_header (getResponse ctx)"
    and t: "ttl (storeClient options) (limitingKey sha256 ctx) s = (t, s1)"
    and run: "canActivate sha256 options ctx (s, log) = (r, ctx', (s', log'))"
  shows "(\<forall>e. r = Inl e \<longrightarrow>
            message e =
              (case Option.bind (RATE_LIMIT_OPTIONS (getHandler ctx)) errorMessage of
                 Some m \<Rightarrow> m
               | None \<Rightarrow> (case errorMessage options of
                            Some m \<Rightarrow> m
                          | None \<Rightarrow> ''Too Many Requests''))) \<and>
         (\<forall>e hc m. r = Inl e \<longrightarrow>
            RATE_LIMIT_OPTIONS (getHandler ctx) = Some hc \<longrightarrow> errorMessage hc = Some m \<longrightarrow>
            message e = m) \<and>
         (\<forall>e. r = Inl e \<longrightarrow>
            Option.bind (RATE_LIMIT_OPTIONS (getHandler ctx)) errorMessage = None \<longrightarrow>
            message e = (case errorMessage options of
                           Some m \<Rightarrow> m
                         | None \<Rightarrow> ''Too Many Requests'')) \<and>
         (\<forall>cc. RATE_LIMIT_OPTIONS (getHandler ctx) = None \<longrightarrow>
               RATE_LIMIT_OPTIONS (getClass ctx) = Some cc \<longrightarrow>
               (r = Inr True \<longrightarrow> limit cc \<noteq> 0 \<longrightarrow>
                  sent_headers (getResponse ctx') ''X-RateLimit-Limit'' =
                    Some (attribute (getResponse ctx) (Num (limit cc)))) \<and>
               (r = Inr True \<longrightarrow> duration cc \<noteq> 0 \<longrightarrow> t < 0 \<longrightarrow>
                  sent_headers (getResponse ctx') ''X-RateLimit-Reset'' =
                    Some (attribute (getResponse ctx) (Num (duration cc)))) \<and>
               (countAllRequests cc = Some True \<longrightarrow>
                  (\<exists>later. log' = log @ [Ttl (limitingKey sha256 ctx),
                                           Incr (limitingKey sha256 ctx)] @ later))) \<and>
         (\<forall>hc. RATE_LIMIT_OPTIONS (getHandler ctx) = Some hc \<longrightarrow>
               (r = Inr True \<longrightarrow> limit hc \<noteq> 0 \<longrightarrow>
                  sent_headers (getResponse ctx') ''X-RateLimit-Limit'' =
                    Some (attribute (getResponse ctx) (Num (limit hc)))) \<and>
               (r = Inr True \<longrightarrow> duration hc \<noteq> 0 \<longrightarrow> t < 0 \<longrightarrow>
                  sent_headers (getResponse ctx') ''X-RateLimit-Reset'' =
                    Some (attribute (getResponse ctx) (Num (duration hc)))) \<and>
               (countAllRequests hc = Some True \<longrightarrow>
                  (\<exists>later. log' = log @ [Ttl (limitingKey sha256 ctx),
                                           Incr (limitingKey sha256 ctx)] @ later)))"
proof -
  let ?k = "limitingKey sha256 ctx"
  have s1: "s1 = snd (ttl (storeClient options) ?k s)"
    using t by simp
  note world = canActivate_world [OF nb run s1]
  have any: "message e =
              (case Option.bind (RATE_LIMIT_OPTIONS (getHandler ctx)) errorMessage of
                 Some m \<Rightarrow> m
               | None \<Rightarrow> (case errorMessage options of
                            Some m \<Rightarrow> m
                          | None \<Rightarrow> ''Too Many Requests''))"
    if "r = Inl e" for e
    using rejected_response(2) [OF nb api t run [unfolded that]] by simp
  have own: "message e = m"
    if "r = Inl e" "RATE_LIMIT_OPTIONS (getHandler ctx) = Some hc" "errorMessage hc = Some m"
    for e hc m
    using any [OF that(1)] that(2,3) by simp
  have msg: "message e = (case errorMessage options of Some m \<Rightarrow> m | None \<Rightarrow> ''Too Many Requests'')"
    if "r = Inl e" and "Option.bind (RATE_LIMIT_OPTIONS (getHandler ctx)) errorMessage = None" for e
    using any [OF that(1)] that(2) by simp
  have hdr: "sent_headers (getResponse ctx') ''X-RateLimit-Limit'' =
               Some (attribute (getResponse ctx) (Num (effectiveLimit options ctx))) \<and>
             sent_headers (getResponse ctx') ''X-RateLimit-Reset'' =
               Some (attribute (getResponse ctx) (Num (if t < 0 then windowSeconds options ctx else t)))"
    if "r = Inr True"
    using allowed_response(1) [OF nb api t run [unfolded that] refl] by simp
  have trace: "\<exists>later. log' = log @ [Ttl ?k, Incr ?k] @ later"
    if "decisionCountAll options ctx"
    using world that by (auto split: if_splits)
  have cls: "(r = Inr True \<longrightarrow> limit cc \<noteq> 0 \<longrightarrow>
                  sent_headers (getResponse ctx') ''X-RateLimit-Limit'' =
                    Some (attribute (getResponse ctx) (Num (limit cc)))) \<and>
               (r = Inr True \<longrightarrow> duration cc \<noteq> 0 \<longrightarrow> t < 0 \<longrightarrow>
                  sent_headers (getResponse ctx') ''X-RateLimit-Reset'' =
                    Some (attribute (getResponse ctx) (Num (duration cc)))) \<and>
               (countAllRequests cc = Some True \<longrightarrow>
                  (\<exists>later. log' = log @ [Ttl ?k, Incr ?k] @ later))"
    if "routeOptions ctx = Some cc" for cc
  proof -
    have L: "limit cc \<noteq> 0 \<Longrightarrow> effectiveLimit options ctx = limit cc"
      by (simp add: effectiveLimit_def that)
    have D: "duration cc \<noteq> 0 \<Longrightarrow> windowSeconds options ctx = duration cc"
      by (simp add: windowSeconds_def that)
    have M: "countAllRequests cc = Some True \<Longrightarrow> decisionCountAll options ctx"
      by (simp add: decisionCountAll_def perRouteCountAll_def that)
    show ?thesis
      using hdr trace L D M by auto
  qed
  have c1: "routeOptions ctx = Some cc"
    if "RATE_LIMIT_OPTIONS (getHandler ctx) = None" "RATE_LIMIT_OPTIONS (getClass ctx) = Some cc" for cc
    using that by (simp add: routeOptions_def)
  have c2: "routeOptions ctx = Some hc" if "RATE_LIMIT_OPTIONS (getHandler ctx) = Some hc" for hc
    using that by (simp add: routeOptions_def)
  show ?thesis
    using any own msg cls [OF c1] cls [OF c2] by (intro conjI allI impI) blast+
qed

theorem C10_message_from_handler_only_witness:
  "\<not> bypass (route rateLimitAll) \<and>
   (has_setHeader (getResponse (route rateLimitAll)) \<or> has_header (getResponse (route rateLimitAll))) \<and>
   Option.bind (RATE_LIMIT_OPTIONS (getHandler (route rateLimitAll))) errorMessage =
     Some ''Rate Limit All'' \<and>
   ttl (storeClient appOptions) (limitingKey digest (route rateLimitAll)) (fst usedUp) =
     (35, fst usedUp) \<and>
   (\<exists>e. fst (canActivate digest appOptions (route rateLimitAll) usedUp) = Inl e \<and>
        message e = ''Rate Limit All'') \<and>
   \<not> bypass reports \<and>
   (has_setHeader (getResponse reports) \<or> has_header (getResponse reports)) \<and>
   RATE_LIMIT_OPTIONS (getHandler reports) = None \<and>
   Option.bind (RATE_LIMIT_OPTIONS (getClass reports)) errorMessage = Some ''Slow down'' \<and>
   map_option limit (RATE_LIMIT_OPTIONS (getClass reports)) = Some 1 \<and>
   errorMessage appOptions = Some ''Too Many Requests'' \<and>
   ttl (storeClient appOptions) (limitingKey digest reports) (fst reportsUsed) = (55, fst reportsUsed) \<and>
   (\<exists>e. fst (canActivate digest appOptions reports reportsUsed) = Inl e \<and>
        message e = ''Too Many Requests'') \<and>
   ttl (storeClient appOptions) (limitingKey digest reports) (fst emptyStore) = (- 2, fst emptyStore) \<and>
   fst (canActivate digest appOptions reports emptyStore) = Inr True \<and>
   sent_headers (getResponse (fst (snd (canActivate digest appOptions reports emptyStore))))
     ''X-RateLimit-Limit'' = Some (NumberValue (Num 1))"
proof -
  have t3: "ttl (storeClient appOptions) (limitingKey digest (route rateLimitAll)) (fst usedUp)
              = (35, fst usedUp)"
    by (simp add: demo_keys usedUp_def appOptions_def memStore_def mem_ttl_def live_def)
  have t2: "ttl (storeClient appOptions) (limitingKey digest reports) (fst reportsUsed)
              = (55, fst reportsUsed)"
    by (simp add: demo_keys reportsUsed_def appOptions_def memStore_def mem_ttl_def live_def)
  have t1: "ttl (storeClient appOptions) (limitingKey digest reports) (fst emptyStore)
              = (- 2, fst emptyStore)"
    by (simp add: demo_keys emptyStore_def appOptions_def memStore_def mem_ttl_def live_def)
  have hm: "Option.bind (RATE_LIMIT_OPTIONS (getHandler (route rateLimitAll))) errorMessage =
              Some ''Rate Limit All''"
    by (simp add: demo_defs)
  have h: "RATE_LIMIT_OPTIONS (getHandler reports) = None"
    by (simp add: reports_defs)
  have c: "RATE_LIMIT_OPTIONS (getClass reports) =
             Some \<lparr>duration = 60, limit = 1, errorMessage = Some ''Slow down'',
                   countAllRequests = Some True\<rparr>"
    by (simp add: reports_defs)
  have g: "errorMessage appOptions = Some ''Too Many Requests''"
    by (simp add: appOptions_def)
  note eleventh = demo_rateLimitAll_eleventh [unfolded usedUp_def]
  note second = demo_reports_second [unfolded reportsUsed_def]
  note first = demo_reports_first [unfolded emptyStore_def]
  have own: "message \<lparr>message = ''Rate Limit All'', status = 429\<rparr> = ''Rate Limit All''"
    using C10_message_from_handler_only [OF demo_not_bypassed(2) demo_api(1)
        t3 [unfolded usedUp_def fst_conv] eleventh, THEN conjunct1, rule_format, OF refl] hm
    by simp
  have rej: "message \<lparr>message = ''Too Many Requests'', status = 429\<rparr> = ''Too Many Requests''"
    using C10_message_from_handler_only [OF demo_not_bypassed(3) demo_api(2)
        t2 [unfolded reportsUsed_def fst_conv] second] h g
    by simp
  have lim: "sent_headers (getResponse (fst (snd (canActivate digest appOptions reports emptyStore))))
               ''X-RateLimit-Limit'' = Some (NumberValue (Num 1))"
    using C10_message_from_handler_only [OF demo_not_bypassed(3) demo_api(2)
        t1 [unfolded emptyStore_def fst_conv] first] h c
    by (simp add: demo_reports_first)
  have ex1: "\<exists>e. fst (canActivate digest appOptions (route rateLimitAll) usedUp) = Inl e \<and>
        message e = ''Rate Limit All''"
    using own by (simp add: demo_rateLimitAll_eleventh)
  show ?thesis
    using demo_not_bypassed(2,3) demo_api(1) [of rateLimitAll] demo_api(2) hm h c g t1 t2 t3 rej lim ex1
    by (simp add: demo_reports_second demo_reports_first)
qed


end
